theory Spec2Isabelle
  imports Main "HOL-Library.Char_ord" "HOL-Library.List_Lexorder" "HOL-Library.AList"
begin

section \<open>Go library functions the file writer calls\<close>

text \<open>
  The file writer of \<^verbatim>\<open>pkg/logging/api.go\<close> is built on the Go packages \<^verbatim>\<open>path\<close>,
  \<^verbatim>\<open>path/filepath\<close>, \<^verbatim>\<open>strings\<close>, \<^verbatim>\<open>time\<close> and \<^verbatim>\<open>os\<close>. This section
  gives the part of their behaviour that the writer depends on, for a Unix system
  (the path separator is the slash, there are no volume names).
\<close>

subsection \<open>Lexical path processing\<close>

text \<open>\<^verbatim>\<open>strings.Split(path, "/")\<close>: the elements between slashes, empty ones included.\<close>

fun split_elems :: "string \<Rightarrow> string list" where
  "split_elems [] = [[]]"
| "split_elems (c # cs) =
     (if c = CHR ''/'' then [] # split_elems cs
      else (case split_elems cs of [] \<Rightarrow> [[c]] | e # es \<Rightarrow> (c # e) # es))"

text \<open>\<^verbatim>\<open>strings.Join(elems, "/")\<close>.\<close>

fun join_elems :: "string list \<Rightarrow> string" where
  "join_elems [] = []"
| "join_elems [e] = e"
| "join_elems (e # es) = e @ ''/'' @ join_elems es"

text \<open>
  One round of the loop of \<^verbatim>\<open>Clean\<close>, on the path element \<open>e\<close> with the elements
  written so far in \<open>out\<close>: empty elements and \<^verbatim>\<open>.\<close> are dropped, \<^verbatim>\<open>..\<close> removes the
  last real element when there is one, is dropped at the root, and is kept at the
  front of a relative path.
\<close>

definition clean_elem :: "bool \<Rightarrow> string list \<Rightarrow> string \<Rightarrow> string list" where
  "clean_elem rooted out e =
     (if e = [] \<or> e = ''.'' then out
      else if e = ''..'' then
        (if out \<noteq> [] \<and> last out \<noteq> ''..'' then butlast out
         else if rooted then out
         else out @ [''..''])
      else out @ [e])"

definition Clean :: "string \<Rightarrow> string" where
  "Clean path =
     (if path = [] then ''.''
      else
        let rooted = (hd path = CHR ''/'');
            out = foldl (clean_elem rooted) [] (split_elems path)
        in if rooted then CHR ''/'' # join_elems out
           else if out = [] then ''.'' else join_elems out)"

text \<open>\<^verbatim>\<open>path.Join\<close>: the loop that fills the buffer, then \<^verbatim>\<open>Clean\<close>.\<close>

fun path_Join_buf :: "string \<Rightarrow> string list \<Rightarrow> string" where
  "path_Join_buf buf [] = buf"
| "path_Join_buf buf (e # es) =
     (if buf \<noteq> [] \<or> e \<noteq> []
      then path_Join_buf ((if buf \<noteq> [] then buf @ ''/'' else buf) @ e) es
      else path_Join_buf buf es)"

definition path_Join :: "string list \<Rightarrow> string" where
  "path_Join elem =
     (if (\<Sum>e\<leftarrow>elem. length e) = 0 then [] else Clean (path_Join_buf [] elem))"

text \<open>\<^verbatim>\<open>filepath.Join\<close>: from the first non-empty element on, joined by slashes and cleaned.\<close>

definition filepath_Join :: "string list \<Rightarrow> string" where
  "filepath_Join elem =
     (case dropWhile (\<lambda>e. e = []) elem of
        [] \<Rightarrow> []
      | e # es \<Rightarrow> Clean (join_elems (e # es)))"

text \<open>The part of a path after its last slash (the whole path when it has none).\<close>

definition after_last_slash :: "string \<Rightarrow> string" where
  "after_last_slash path = rev (takeWhile (\<lambda>c. c \<noteq> CHR ''/'') (rev path))"

text \<open>\<^verbatim>\<open>filepath.Dir\<close>: everything up to and including the last slash, cleaned.\<close>

definition filepath_Dir :: "string \<Rightarrow> string" where
  "filepath_Dir path = Clean (rev (dropWhile (\<lambda>c. c \<noteq> CHR ''/'') (rev path)))"

text \<open>
  \<^verbatim>\<open>filepath.Base\<close>: trailing slashes are stripped, then the last element is taken;
  the empty path gives \<^verbatim>\<open>.\<close>, a path of slashes only gives \<^verbatim>\<open>/\<close>.
\<close>

definition filepath_Base :: "string \<Rightarrow> string" where
  "filepath_Base path =
     (if path = [] then ''.''
      else
        let stripped = rev (dropWhile (\<lambda>c. c = CHR ''/'') (rev path));
            e = after_last_slash stripped
        in if e = [] then ''/'' else e)"

text \<open>
  \<^verbatim>\<open>filepath.Ext\<close>: scanning from the end and stopping at a slash, the suffix that begins
  at the first dot met; empty when no dot is met.
\<close>

definition filepath_Ext :: "string \<Rightarrow> string" where
  "filepath_Ext path =
     (let e = after_last_slash path
      in if CHR ''.'' \<in> set e
         then CHR ''.'' # rev (takeWhile (\<lambda>c. c \<noteq> CHR ''.'') (rev e))
         else [])"

text \<open>\<^verbatim>\<open>strings.HasSuffix\<close>.\<close>

definition strings_HasSuffix :: "string \<Rightarrow> string \<Rightarrow> bool" where
  "strings_HasSuffix s suffix =
     (length suffix \<le> length s \<and> drop (length s - length suffix) s = suffix)"

subsection \<open>Time and its formatting\<close>

text \<open>
  A \<^verbatim>\<open>time.Time\<close> value as the writer reads it: the instant in nanoseconds since the
  epoch (what \<^verbatim>\<open>time.Since\<close> subtracts) and the wall-clock fields of its local
  presentation (what \<^verbatim>\<open>Format\<close> prints).
\<close>

record Time =
  unixNano :: int
  tYear :: int
  tMonth :: nat
  tDay :: nat
  tHour :: nat
  tMinute :: nat
  tSecond :: nat
  tNanosecond :: nat

definition digit_char :: "nat \<Rightarrow> char" where
  "digit_char d = char_of (48 + d)"

fun decimal :: "nat \<Rightarrow> string" where
  "decimal n = (if n < 10 then [digit_char n] else decimal (n div 10) @ [digit_char (n mod 10)])"

declare decimal.simps [simp del]

text \<open>
  \<^verbatim>\<open>appendInt(b, x, width)\<close> of package \<^verbatim>\<open>time\<close>: a minus sign for a negative number,
  then the decimal digits, padded with zeros on the left up to \<open>width\<close>.
\<close>

definition appendInt :: "int \<Rightarrow> nat \<Rightarrow> string" where
  "appendInt x width =
     (let u = nat \<bar>x\<bar>; ds = decimal u
      in (if x < 0 then ''-'' else []) @ replicate (width - length ds) (CHR ''0'') @ ds)"

text \<open>
  \<^verbatim>\<open>appendNano\<close> for a layout element \<^verbatim>\<open>.00000\<close>: the separator, then the nanoseconds
  printed on nine digits and cut down to the five asked for.
\<close>

definition appendNano5 :: "nat \<Rightarrow> string" where
  "appendNano5 nanosec =
     (let b = ''.'' @ appendInt (int nanosec) 9 in take (length b - 9 + 5) b)"

text \<open>
  \<^verbatim>\<open>t.Format(archiveNameFormat)\<close> with
  \<^verbatim>\<open>archiveNameFormat = "2006-01-02T15-04-05.00000"\<close>: year on four digits, month, day,
  the letter T, hour, minute and second on two digits each, and five digits of the
  fraction of the second.
\<close>

definition Format_archiveNameFormat :: "Time \<Rightarrow> string" where
  "Format_archiveNameFormat t =
     appendInt (tYear t) 4 @ ''-'' @ appendInt (int (tMonth t)) 2 @ ''-'' @
     appendInt (int (tDay t)) 2 @ ''T'' @ appendInt (int (tHour t)) 2 @ ''-'' @
     appendInt (int (tMinute t)) 2 @ ''-'' @ appendInt (int (tSecond t)) 2 @
     appendNano5 (tNanosecond t)"

subsection \<open>Files, file handles and the calls of package os\<close>

text \<open>
  The file system is a list of regular files by path, in directory order; sub-directories
  are not entries of the model, and the paths the writer passes are looked up as they are
  written. A file has its bytes and its modification time (in nanoseconds).
\<close>

record inode =
  content :: string
  modTime :: int

text \<open>
  A \<^verbatim>\<open>*os.File\<close> that is not nil: the path under which its file is found (the path
  it was opened on, as long as the file is not renamed) and whether it was closed.
\<close>

record os_File =
  fname :: string
  fclosed :: bool

text \<open>An \<^verbatim>\<open>os.FileInfo\<close>: what \<^verbatim>\<open>Name()\<close>, \<^verbatim>\<open>Size()\<close> and \<^verbatim>\<open>ModTime()\<close> return.\<close>

record FileInfo =
  Name :: string
  Size :: int
  ModTime :: int

text \<open>
  The errors: the sentinels \<^verbatim>\<open>os.ErrClosed\<close>, \<^verbatim>\<open>os.ErrInvalid\<close> (a nil receiver) and
  \<^verbatim>\<open>os.ErrNotExist\<close>; \<open>ErrIO\<close> for any other failure of the system (permissions,
  full disk); and the \<^verbatim>\<open>*PathError\<close> that a method of a closed file returns, with the
  operation, the path and the cause.
\<close>

datatype os_error =
    ErrClosed
  | ErrInvalid
  | ErrNotExist
  | ErrIO
  | PathError string string os_error

datatype open_flag =
    O_APPEND_WRONLY_CREATE
  | O_CREATE_TRUNC_WRONLY

text \<open>The calls the writer makes on the system, with their arguments.\<close>

datatype oscall =
    Call_MkdirAll string
  | Call_ReadDir string
  | Call_Info string
  | Call_Stat string
  | Call_OpenFile string open_flag
  | Call_Open string
  | Call_Rename string string
  | Call_Remove string
  | Call_Close string
  | Call_Write string string
  | Call_Read string

text \<open>
  The world outside the writer: the files, the clock (read by \<^verbatim>\<open>time.Now\<close>; it does
  not advance by itself during a call), the log of the calls made so far, and what the
  writer cannot control: which calls fail, and what the gzip codec produces.
  \<open>fault wld history call\<close> is \<open>None\<close> when the call succeeds as far as the system is
  concerned, and \<open>Some k\<close> when it fails; for a write, \<open>k\<close> is the number of bytes
  that still got through. \<open>gzip wld src\<close> is the compressed stream of the bytes
  \<open>src\<close>, and \<open>flushed wld src\<close> the number of bytes of that stream that the gzip
  writer has passed on to its output when all of \<open>src\<close> was written to it; the rest
  (the last block and the trailer) is written when the gzip writer is closed.
\<close>

record world =
  files :: "(string \<times> inode) list"
  clock :: Time
  oslog :: "oscall list"
  fault :: "oscall list \<Rightarrow> oscall \<Rightarrow> nat option"
  gzip :: "string \<Rightarrow> string"
  flushed :: "string \<Rightarrow> nat"

definition os_call :: "oscall \<Rightarrow> world \<Rightarrow> nat option \<times> world" where
  "os_call c wld = (fault wld (oslog wld) c, wld\<lparr>oslog := oslog wld @ [c]\<rparr>)"

definition os_MkdirAll :: "string \<Rightarrow> world \<Rightarrow> os_error option \<times> world" where
  "os_MkdirAll dir wld =
     (case os_call (Call_MkdirAll dir) wld of
        (Some k, wld1) \<Rightarrow> (Some ErrIO, wld1)
      | (None, wld1) \<Rightarrow> (None, wld1))"

text \<open>
  \<^verbatim>\<open>os.ReadDir\<close>: the entries of the directory sorted by file name. An entry is the
  name and the path of the file it stands for.
\<close>

definition os_ReadDir :: "string \<Rightarrow> world \<Rightarrow> (os_error + (string \<times> string) list) \<times> world" where
  "os_ReadDir dir wld =
     (case os_call (Call_ReadDir dir) wld of
        (Some k, wld1) \<Rightarrow> (Inl ErrIO, wld1)
      | (None, wld1) \<Rightarrow>
          (Inr (sort_key fst
                  (map (\<lambda>(p, f). (filepath_Base p, p))
                     (filter (\<lambda>(p, f). filepath_Dir p = Clean dir) (files wld1)))),
           wld1))"

definition file_info :: "string \<Rightarrow> inode \<Rightarrow> FileInfo" where
  "file_info name f = \<lparr>Name = name, Size = int (length (content f)), ModTime = modTime f\<rparr>"

text \<open>\<^verbatim>\<open>DirEntry.Info\<close>: the file is looked up again when the call is made.\<close>

definition DirEntry_Info :: "string \<times> string \<Rightarrow> world \<Rightarrow> (os_error + FileInfo) \<times> world" where
  "DirEntry_Info dirEnt wld =
     (case os_call (Call_Info (snd dirEnt)) wld of
        (Some k, wld1) \<Rightarrow> (Inl ErrIO, wld1)
      | (None, wld1) \<Rightarrow>
          (case map_of (files wld1) (snd dirEnt) of
             None \<Rightarrow> (Inl ErrNotExist, wld1)
           | Some f \<Rightarrow> (Inr (file_info (fst dirEnt) f), wld1)))"

definition os_Stat :: "string \<Rightarrow> world \<Rightarrow> (os_error + FileInfo) \<times> world" where
  "os_Stat path wld =
     (case os_call (Call_Stat path) wld of
        (Some k, wld1) \<Rightarrow> (Inl ErrIO, wld1)
      | (None, wld1) \<Rightarrow>
          (case map_of (files wld1) path of
             None \<Rightarrow> (Inl ErrNotExist, wld1)
           | Some f \<Rightarrow> (Inr (file_info (filepath_Base path) f), wld1)))"

definition new_file :: "world \<Rightarrow> inode" where
  "new_file wld = \<lparr>content = [], modTime = unixNano (clock wld)\<rparr>"

text \<open>
  \<^verbatim>\<open>os.OpenFile\<close> with the two flag sets the writer uses, both with \<^verbatim>\<open>O_CREATE\<close>:
  for appending an existing file is left as it is, with \<^verbatim>\<open>O_TRUNC\<close> it is emptied.
\<close>

definition os_OpenFile :: "string \<Rightarrow> open_flag \<Rightarrow> world \<Rightarrow> (os_error + os_File) \<times> world" where
  "os_OpenFile path flag wld =
     (case os_call (Call_OpenFile path flag) wld of
        (Some k, wld1) \<Rightarrow> (Inl ErrIO, wld1)
      | (None, wld1) \<Rightarrow>
          (Inr \<lparr>fname = path, fclosed = False\<rparr>,
           (if flag = O_APPEND_WRONLY_CREATE \<and> map_of (files wld1) path \<noteq> None then wld1
            else wld1\<lparr>files := AList.update path (new_file wld1) (files wld1)\<rparr>)))"

definition os_Open :: "string \<Rightarrow> world \<Rightarrow> (os_error + os_File) \<times> world" where
  "os_Open path wld =
     (case os_call (Call_Open path) wld of
        (Some k, wld1) \<Rightarrow> (Inl ErrIO, wld1)
      | (None, wld1) \<Rightarrow>
          (case map_of (files wld1) path of
             None \<Rightarrow> (Inl ErrNotExist, wld1)
           | Some f \<Rightarrow> (Inr \<lparr>fname = path, fclosed = False\<rparr>, wld1)))"

text \<open>\<^verbatim>\<open>os.Rename\<close>: the file moves to the new path, replacing a file that is there.\<close>

definition os_Rename :: "string \<Rightarrow> string \<Rightarrow> world \<Rightarrow> os_error option \<times> world" where
  "os_Rename oldpath newpath wld =
     (case os_call (Call_Rename oldpath newpath) wld of
        (Some k, wld1) \<Rightarrow> (Some ErrIO, wld1)
      | (None, wld1) \<Rightarrow>
          (case map_of (files wld1) oldpath of
             None \<Rightarrow> (Some ErrNotExist, wld1)
           | Some f \<Rightarrow>
               (None, wld1\<lparr>files := AList.update newpath f (AList.delete oldpath (files wld1))\<rparr>)))"

definition os_Remove :: "string \<Rightarrow> world \<Rightarrow> os_error option \<times> world" where
  "os_Remove path wld =
     (case os_call (Call_Remove path) wld of
        (Some k, wld1) \<Rightarrow> (Some ErrIO, wld1)
      | (None, wld1) \<Rightarrow>
          (case map_of (files wld1) path of
             None \<Rightarrow> (Some ErrNotExist, wld1)
           | Some f \<Rightarrow> (None, wld1\<lparr>files := AList.delete path (files wld1)\<rparr>)))"

text \<open>
  \<^verbatim>\<open>(*os.File).Close\<close>: \<^verbatim>\<open>ErrInvalid\<close> on a nil receiver, an error wrapping
  \<^verbatim>\<open>ErrClosed\<close> on a file already closed; otherwise the file is closed, also when the
  system reports a failure.
\<close>

definition File_Close :: "os_File option \<Rightarrow> world \<Rightarrow> os_error option \<times> os_File option \<times> world" where
  "File_Close fl wld =
     (case fl of
        None \<Rightarrow> (Some ErrInvalid, None, wld)
      | Some f \<Rightarrow>
          (case os_call (Call_Close (fname f)) wld of
             (flt, wld1) \<Rightarrow>
               if fclosed f then (Some (PathError ''close'' (fname f) ErrClosed), Some f, wld1)
               else ((case flt of None \<Rightarrow> None | Some k \<Rightarrow> Some ErrIO),
                     Some (f\<lparr>fclosed := True\<rparr>), wld1)))"

text \<open>
  \<^verbatim>\<open>(*os.File).Write\<close>: nothing is written through a nil or a closed file; otherwise the
  bytes that get through are appended to the file the handle was opened on (when it
  still has its name) and the count is returned, with an error when the system failed.
\<close>

definition File_Write :: "os_File option \<Rightarrow> string \<Rightarrow> world \<Rightarrow> (nat \<times> os_error option) \<times> world" where
  "File_Write fl b wld =
     (case fl of
        None \<Rightarrow> ((0, Some ErrInvalid), wld)
      | Some f \<Rightarrow>
          (case os_call (Call_Write (fname f) b) wld of
             (flt, wld1) \<Rightarrow>
               if fclosed f then ((0, Some (PathError ''write'' (fname f) ErrClosed)), wld1)
               else
                 let n = (case flt of None \<Rightarrow> length b | Some k \<Rightarrow> min k (length b));
                     err = (case flt of None \<Rightarrow> None | Some k \<Rightarrow> Some ErrIO)
                 in ((n, err),
                     (case map_of (files wld1) (fname f) of
                        None \<Rightarrow> wld1
                      | Some i \<Rightarrow>
                          wld1\<lparr>files := AList.update (fname f)
                                  (i\<lparr>content := content i @ take n b,
                                      modTime := unixNano (clock wld1)\<rparr>) (files wld1)\<rparr>))))"

text \<open>
  Reading a file to its end, as \<^verbatim>\<open>io.Copy\<close> does with its source: the bytes of the
  file are delivered in one piece, or the read fails and delivers nothing.
\<close>

definition File_Read :: "os_File \<Rightarrow> world \<Rightarrow> (os_error + string) \<times> world" where
  "File_Read f wld =
     (case os_call (Call_Read (fname f)) wld of
        (flt, wld1) \<Rightarrow>
          if fclosed f then (Inl (PathError ''read'' (fname f) ErrClosed), wld1)
          else (case flt of
                  Some k \<Rightarrow> (Inl ErrIO, wld1)
                | None \<Rightarrow>
                    (Inr (case map_of (files wld1) (fname f) of
                            None \<Rightarrow> []
                          | Some i \<Rightarrow> content i),
                     wld1)))"

text \<open>
  An open file stays open on its file when that file is renamed: after a rename that
  succeeded, the file is found under the new path.
\<close>

definition File_renamed :: "os_error option \<Rightarrow> string \<Rightarrow> os_File \<Rightarrow> os_File" where
  "File_renamed err newpath f = (case err of None \<Rightarrow> f\<lparr>fname := newpath\<rparr> | Some e \<Rightarrow> f)"

text \<open>
  A \<^verbatim>\<open>*gzip.Writer\<close>: the file it writes to, the bytes that its \<^verbatim>\<open>Close\<close> has to
  write (for a new writer, the whole stream of the empty input), and whether a write of
  it to the file has failed.
\<close>

record gzip_Writer =
  zw :: os_File
  zbuf :: string
  zerr :: bool

definition gzip_NewWriter :: "os_File \<Rightarrow> world \<Rightarrow> gzip_Writer" where
  "gzip_NewWriter out wld = \<lparr>zw = out, zbuf = gzip wld [], zerr = False\<rparr>"

text \<open>
  \<^verbatim>\<open>io.Copy(zipper, in)\<close>: the input is read, and the part of its compressed stream
  that the gzip writer passes on is written to the output file; the rest stays with the
  gzip writer. The result is the number of input bytes copied. A failed write is kept
  by the gzip writer.
\<close>

definition io_Copy_gzip :: "gzip_Writer \<Rightarrow> os_File \<Rightarrow> world \<Rightarrow> (os_error + nat) \<times> gzip_Writer \<times> world" where
  "io_Copy_gzip zipper inp wld =
     (case File_Read inp wld of
        (Inl err, wld1) \<Rightarrow> (Inl err, zipper, wld1)
      | (Inr src, wld1) \<Rightarrow>
          (let stream = gzip wld1 src; k = flushed wld1 src
           in (case File_Write (Some (zw zipper)) (take k stream) wld1 of
                 ((m, Some err), wld2) \<Rightarrow> (Inl err, zipper\<lparr>zerr := True\<rparr>, wld2)
               | ((m, None), wld2) \<Rightarrow>
                   (Inr (length src), zipper\<lparr>zbuf := drop k stream\<rparr>, wld2))))"

text \<open>
  \<^verbatim>\<open>(*gzip.Writer).Close\<close>: after a failed write it returns that failure and writes
  nothing; otherwise it writes the bytes it still holds to the file.
\<close>

definition gzip_Writer_Close :: "gzip_Writer \<Rightarrow> world \<Rightarrow> os_error option \<times> world" where
  "gzip_Writer_Close zipper wld =
     (if zerr zipper then (Some ErrIO, wld)
      else (case File_Write (Some (zw zipper)) (zbuf zipper) wld of
              ((m, err), wld1) \<Rightarrow> (err, wld1)))"

section \<open>The file writer\<close>

text \<open>
  \<^verbatim>\<open>FileWriterConfig\<close> and \<^verbatim>\<open>FileWriter\<close> of \<^verbatim>\<open>pkg/logging/api.go\<close>. The durations
  and sizes are \<^verbatim>\<open>int64\<close> values. \<open>closed\<close> is the \<^verbatim>\<open>atomic.Value\<close>: \<open>None\<close> as
  long as nothing was stored. \<open>logFile\<close> is \<open>None\<close> for the nil pointer. The mutex is
  not a field of the model: the calls are taken one at a time. \<open>compressorWG\<close> is the
  wait group, given by the arguments of the \<^verbatim>\<open>compress\<close> goroutines it counts: its
  counter is the length of the list.
\<close>

record FileWriterConfig =
  LogDirName :: string
  LogFileName :: string
  Compress :: bool
  MaxTimeTimeToKeep :: int
  MaxLogFileSizeBytes :: int

record FileWriter =
  closed :: "bool option"
  config :: FileWriterConfig
  logFile :: "os_File option"
  logFileNameFullPath :: string
  byteCounter :: int
  compressorWG :: "string list"

definition defaultLogFileSizeBytes :: int where
  "defaultLogFileSizeBytes = 1000000"

definition defaultLogDirName :: string where
  "defaultLogDirName = ''./log''"

definition defaultLogFileName :: string where
  "defaultLogFileName = ''log.log''"

definition compressedExtension :: string where
  "compressedExtension = ''gz''"

definition processingExtenstion :: string where
  "processingExtenstion = ''processing''"

text \<open>The value of an \<^verbatim>\<open>int64\<close> computation: the mathematical result wrapped to 64 bits.\<close>

definition int64 :: "int \<Rightarrow> int" where
  "int64 x = (x + 2 ^ 63) mod 2 ^ 64 - 2 ^ 63"

text \<open>A call either returns or panics.\<close>

datatype 'a outcome =
    Panic string
  | Return 'a

text \<open>\<^verbatim>\<open>time.Since(t)\<close>, in nanoseconds.\<close>

definition time_Since :: "int \<Rightarrow> world \<Rightarrow> int" where
  "time_Since t wld = unixNano (clock wld) - t"

text \<open>
  \<^verbatim>\<open>archiveName\<close>, with the time that \<^verbatim>\<open>time.Now()\<close> returns as its first argument.
  The slice \<^verbatim>\<open>filename[:len(filename)-len(ext)]\<close> is within bounds: the extension is
  never longer than the base name (lemma \<open>Ext_le_Base\<close> below).
\<close>

definition archiveName :: "Time \<Rightarrow> string \<Rightarrow> string" where
  "archiveName now current =
     (let dir = filepath_Dir current;
          filename = filepath_Base current;
          ext = filepath_Ext current;
          prefix = take (length filename - length ext) filename;
          timestamp = Format_archiveNameFormat now
      in filepath_Join [dir, prefix @ ''-'' @ timestamp @ ext])"

text \<open>\<^verbatim>\<open>w.compressorWG.Add(1)\<close> followed by \<^verbatim>\<open>go w.compress(fn)\<close>.\<close>

definition go_compress :: "FileWriter \<Rightarrow> string \<Rightarrow> FileWriter" where
  "go_compress w fn = w\<lparr>compressorWG := compressorWG w @ [fn]\<rparr>"

text \<open>\<^verbatim>\<open>FileWriter.archive\<close>; the parameter \<open>fn\<close> is not used by the source either.\<close>

definition archive :: "FileWriter \<Rightarrow> string \<Rightarrow> world \<Rightarrow> os_error option \<times> FileWriter \<times> world" where
  "archive w fn wld =
     (let newName = archiveName (clock wld) (logFileNameFullPath w)
      in (case os_Rename (logFileNameFullPath w) newName wld of
            (Some err, wld1) \<Rightarrow> (Some err, w, wld1)
          | (None, wld1) \<Rightarrow>
              (None, (if Compress (config w) then go_compress w newName else w), wld1)))"

text \<open>Closing a local file in a deferred call: the error is dropped.\<close>

definition close_local :: "os_File \<Rightarrow> world \<Rightarrow> world" where
  "close_local f wld = snd (snd (File_Close (Some f) wld))"

text \<open>
  The deferred calls of \<^verbatim>\<open>compress\<close> once the output is open, run when it returns,
  last deferred first: \<^verbatim>\<open>zipper.Close()\<close>, \<^verbatim>\<open>out.Close()\<close>, \<^verbatim>\<open>in.Close()\<close>. Their
  errors are dropped.
\<close>

definition compress_deferred :: "gzip_Writer \<Rightarrow> os_File \<Rightarrow> os_File \<Rightarrow> world \<Rightarrow> world" where
  "compress_deferred zipper out inp wld =
     close_local inp (close_local out (snd (gzip_Writer_Close zipper wld)))"

text \<open>
  \<^verbatim>\<open>FileWriter.compress\<close>. The deferred \<^verbatim>\<open>w.compressorWG.Done()\<close> takes the call out
  of the wait group on every path. After the copy, the rename of the temporary output
  and the removal of the original come first; the gzip writer and the two files are
  closed only when the function returns, so the end of the compressed stream is
  written after them, to the output file under the name it has by then. The messages
  to the logger and to standard output are not part of the model, here and below.
\<close>

definition compress :: "FileWriter \<Rightarrow> string \<Rightarrow> world \<Rightarrow> FileWriter \<times> world" where
  "compress w fn wld =
     (let done = w\<lparr>compressorWG := remove1 fn (compressorWG w)\<rparr>
      in (case os_Open fn wld of
            (Inl err, wld1) \<Rightarrow> (done, wld1)
          | (Inr inp, wld1) \<Rightarrow>
              (let compressedFilename = fn @ ''.'' @ compressedExtension;
                   tempFilename = compressedFilename @ ''.'' @ processingExtenstion
               in (case os_OpenFile tempFilename O_CREATE_TRUNC_WRONLY wld1 of
                     (Inl err, wld2) \<Rightarrow> (done, close_local inp wld2)
                   | (Inr out, wld2) \<Rightarrow>
                       (case io_Copy_gzip (gzip_NewWriter out wld2) inp wld2 of
                          (Inl err, zipper, wld3) \<Rightarrow>
                            (case os_Remove tempFilename wld3 of
                               (err1, wld4) \<Rightarrow>
                                 (done, compress_deferred zipper out inp wld4))
                        | (Inr n, zipper, wld3) \<Rightarrow>
                            (case os_Rename tempFilename compressedFilename wld3 of
                               (err1, wld4) \<Rightarrow>
                                 (case os_Remove fn wld4 of
                                    (err2, wld5) \<Rightarrow>
                                      (done,
                                       compress_deferred
                                         (zipper\<lparr>zw := File_renamed err1 compressedFilename
                                                           (zw zipper)\<rparr>)
                                         (File_renamed err1 compressedFilename out)
                                         inp wld5))))))))"

text \<open>
  \<^verbatim>\<open>w.compressorWG.Wait()\<close>: the goroutines the wait group counts run to their end,
  here one after the other in the order they were started.
\<close>

definition compressorWG_Wait :: "FileWriter \<Rightarrow> world \<Rightarrow> FileWriter \<times> world" where
  "compressorWG_Wait w wld =
     foldl (\<lambda>(w', wld') fn. compress w' fn wld') (w, wld) (compressorWG w)"

text \<open>The loop of \<^verbatim>\<open>FileWriter.cleanup\<close> over the directory entries.\<close>

fun cleanup_range :: "(string \<times> string) list \<Rightarrow> FileWriter \<Rightarrow> world \<Rightarrow> FileWriter \<times> world" where
  "cleanup_range [] w wld = (w, wld)"
| "cleanup_range (dirEnt # dirEnts) w wld =
     (case DirEntry_Info dirEnt wld of
        (Inl err, wld1) \<Rightarrow> cleanup_range dirEnts w wld1
      | (Inr info, wld1) \<Rightarrow>
          let fullPath = filepath_Join [LogDirName (config w), Name info]
          in if MaxTimeTimeToKeep (config w) > 0
                \<and> time_Since (ModTime info) wld1 > MaxTimeTimeToKeep (config w)
             then (case os_Remove fullPath wld1 of
                     (err, wld2) \<Rightarrow> cleanup_range dirEnts w wld2)
             else if strings_HasSuffix (Name info) ''log''
                     \<and> Name info \<noteq> LogFileName (config w)
             then cleanup_range dirEnts (go_compress w fullPath) wld1
             else cleanup_range dirEnts w wld1)"

definition cleanup :: "FileWriter \<Rightarrow> world \<Rightarrow> os_error option \<times> FileWriter \<times> world" where
  "cleanup w wld =
     (case os_ReadDir (LogDirName (config w)) wld of
        (Inl err, wld1) \<Rightarrow> (Some err, w, wld1)
      | (Inr dirEnts, wld1) \<Rightarrow>
          (case cleanup_range dirEnts w wld1 of (w1, wld2) \<Rightarrow> (None, w1, wld2)))"

text \<open>\<^verbatim>\<open>FileWriter.rotate\<close>. The result of \<^verbatim>\<open>w.archive\<close> is dropped, as in the source.\<close>

definition rotate :: "FileWriter \<Rightarrow> world \<Rightarrow> os_error option outcome \<times> FileWriter \<times> world" where
  "rotate w wld =
     (case logFile w of
        None \<Rightarrow> (Panic ''logging inconsistency: logFile was nil'', w, wld)
      | Some f \<Rightarrow>
          (case File_Close (Some f) wld of
             (Some err, f1, wld1) \<Rightarrow> (Return (Some err), w\<lparr>logFile := f1\<rparr>, wld1)
           | (None, f1, wld1) \<Rightarrow>
               (let w1 = w\<lparr>logFile := f1\<rparr>
                in (case os_MkdirAll (LogDirName (config w1)) wld1 of
                      (Some err, wld2) \<Rightarrow> (Return (Some err), w1, wld2)
                    | (None, wld2) \<Rightarrow>
                        (case archive w1 (logFileNameFullPath w1) wld2 of
                           (err1, w2, wld3) \<Rightarrow>
                             (case os_OpenFile (logFileNameFullPath w2) O_APPEND_WRONLY_CREATE wld3 of
                                (Inl err, wld4) \<Rightarrow>
                                  (Return (Some err), w2\<lparr>logFile := None\<rparr>, wld4)
                              | (Inr f2, wld4) \<Rightarrow>
                                  (Return None, w2\<lparr>logFile := Some f2, byteCounter := 0\<rparr>,
                                   wld4)))))))"

text \<open>
  \<^verbatim>\<open>FileWriter.Write\<close>. The check of \<open>closed\<close> is whether anything was stored. The
  result of \<^verbatim>\<open>w.rotate()\<close> is dropped, as in the source; a panic of it goes through.
\<close>

definition Write :: "FileWriter \<Rightarrow> string \<Rightarrow> world \<Rightarrow> (nat \<times> os_error option) outcome \<times> FileWriter \<times> world" where
  "Write w msg wld =
     (if closed w \<noteq> None then (Return (0, Some ErrClosed), w, wld)
      else
        case File_Write (logFile w) msg wld of
          ((n, err), wld1) \<Rightarrow>
            let w1 = w\<lparr>byteCounter := int64 (byteCounter w + int n)\<rparr>
            in if byteCounter w1 > MaxLogFileSizeBytes (config w1)
               then (case rotate w1 wld1 of
                       (Panic s, w2, wld2) \<Rightarrow> (Panic s, w2, wld2)
                     | (Return r, w2, wld2) \<Rightarrow> (Return (n, err), w2, wld2))
               else (Return (n, err), w1, wld1))"

text \<open>\<^verbatim>\<open>FileWriter.initialize\<close>.\<close>

definition initialize :: "FileWriter \<Rightarrow> world \<Rightarrow> os_error option \<times> FileWriter \<times> world" where
  "initialize w wld =
     (case os_MkdirAll (LogDirName (config w)) wld of
        (Some err, wld1) \<Rightarrow> (Some err, w, wld1)
      | (None, wld1) \<Rightarrow>
          (case cleanup w wld1 of
             (Some err, w1, wld2) \<Rightarrow> (Some err, w1, wld2)
           | (None, w1, wld2) \<Rightarrow>
               (case (case os_Stat (logFileNameFullPath w1) wld2 of
                        (Inl err, wld3) \<Rightarrow> (None, w1, wld3)
                      | (Inr info, wld3) \<Rightarrow>
                          (if Size info \<ge> MaxLogFileSizeBytes (config w1)
                           then archive w1 (logFileNameFullPath w1) wld3
                           else (None, w1\<lparr>byteCounter := Size info\<rparr>, wld3))) of
                  (Some err, w2, wld4) \<Rightarrow> (Some err, w2, wld4)
                | (None, w2, wld4) \<Rightarrow>
                    (case os_OpenFile (logFileNameFullPath w2) O_APPEND_WRONLY_CREATE wld4 of
                       (Inl err, wld5) \<Rightarrow> (Some err, w2\<lparr>logFile := None\<rparr>, wld5)
                     | (Inr f, wld5) \<Rightarrow> (None, w2\<lparr>logFile := Some f\<rparr>, wld5)))))"

text \<open>
  \<^verbatim>\<open>NewFileWriter\<close>. When \<^verbatim>\<open>initialize\<close> fails, \<^verbatim>\<open>lg.Fatalw\<close> ends the process: the
  result is the error on the left and there is no writer.
\<close>

definition NewFileWriter :: "FileWriterConfig \<Rightarrow> world \<Rightarrow> (os_error + FileWriter) \<times> world" where
  "NewFileWriter c wld =
     (let c1 = (if MaxLogFileSizeBytes c = 0
                then c\<lparr>MaxLogFileSizeBytes := defaultLogFileSizeBytes\<rparr> else c);
          c2 = (if LogDirName c1 = [] then c1\<lparr>LogDirName := defaultLogDirName\<rparr> else c1);
          c3 = (if LogFileName c2 = [] then c2\<lparr>LogFileName := defaultLogFileName\<rparr> else c2);
          fileWriter = \<lparr>closed = None, config = c3, logFile = None,
                        logFileNameFullPath = path_Join [LogDirName c3, LogFileName c3],
                        byteCounter = 0, compressorWG = []\<rparr>
      in case initialize fileWriter wld of
           (Some err, w, wld1) \<Rightarrow> (Inl err, wld1)
         | (None, w, wld1) \<Rightarrow> (Inr w, wld1))"

text \<open>\<^verbatim>\<open>FileWriter.Close\<close>.\<close>

definition Close :: "FileWriter \<Rightarrow> world \<Rightarrow> os_error option \<times> FileWriter \<times> world" where
  "Close w wld =
     (let w1 = w\<lparr>closed := Some True\<rparr>
      in case compressorWG_Wait w1 wld of
           (w2, wld1) \<Rightarrow>
             (case File_Close (logFile w2) wld1 of
                (err, f, wld2) \<Rightarrow> (err, w2\<lparr>logFile := f\<rparr>, wld2)))"

section \<open>Callers and example states\<close>

text \<open>
  A caller that writes one payload after the other, as the loop of \<^verbatim>\<open>TestFileWriter\<close>
  does; it stops at a panic.
\<close>

fun Writes :: "FileWriter \<Rightarrow> string list \<Rightarrow> world \<Rightarrow> (nat \<times> os_error option) outcome list \<times> FileWriter \<times> world" where
  "Writes w [] wld = ([], w, wld)"
| "Writes w (msg # msgs) wld =
     (case Write w msg wld of
        (Panic s, w1, wld1) \<Rightarrow> ([Panic s], w1, wld1)
      | (Return r, w1, wld1) \<Rightarrow>
          (case Writes w1 msgs wld1 of (rs, w2, wld2) \<Rightarrow> (Return r # rs, w2, wld2)))"

text \<open>
  Concrete states on which the theorems below are instantiated: a clock, a world with
  one log file of three bytes in which no call fails, and a writer that has this file
  open, with a limit of ten bytes. The codec of the world puts a letter before its input
  and passes the first two bytes of the stream on during the copy.
\<close>

definition ex_time :: Time where
  "ex_time = \<lparr>unixNano = 1000, tYear = 2024, tMonth = 3, tDay = 1, tHour = 12,
              tMinute = 5, tSecond = 9, tNanosecond = 456789\<rparr>"

definition ex_world :: world where
  "ex_world = \<lparr>files = [(''log/log.log'', \<lparr>content = ''abc'', modTime = 5\<rparr>)],
               clock = ex_time, oslog = [], fault = (\<lambda>h c. None),
               gzip = (\<lambda>s. CHR ''z'' # s), flushed = (\<lambda>s. 2)\<rparr>"

definition ex_config :: FileWriterConfig where
  "ex_config = \<lparr>LogDirName = ''log'', LogFileName = ''log.log'', Compress = True,
                MaxTimeTimeToKeep = 0, MaxLogFileSizeBytes = 10\<rparr>"

definition ex_writer :: FileWriter where
  "ex_writer = \<lparr>closed = None, config = ex_config,
                logFile = Some \<lparr>fname = ''log/log.log'', fclosed = False\<rparr>,
                logFileNameFullPath = ''log/log.log'', byteCounter = 3, compressorWG = []\<rparr>"

text \<open>The same world when the directory cannot be created, and when no rename goes through.\<close>

definition ex_world_no_mkdir :: world where
  "ex_world_no_mkdir =
     ex_world\<lparr>fault := (\<lambda>h c. case c of Call_MkdirAll d \<Rightarrow> Some 0 | _ \<Rightarrow> None)\<rparr>"

definition ex_world_no_rename :: world where
  "ex_world_no_rename =
     ex_world\<lparr>fault := (\<lambda>h c. case c of Call_Rename a b \<Rightarrow> Some 0 | _ \<Rightarrow> None)\<rparr>"

text \<open>A world that holds one archived log file, without faults and when no rename goes through.\<close>

definition ex_world_archived :: world where
  "ex_world_archived =
     ex_world\<lparr>files := [(''log/log-2024-03-01T12-05-09.00045.log'',
                          \<lparr>content = ''abc'', modTime = 5\<rparr>)]\<rparr>"

definition ex_world_archived_no_rename :: world where
  "ex_world_archived_no_rename =
     ex_world_archived\<lparr>fault := (\<lambda>h c. case c of Call_Rename a b \<Rightarrow> Some 0 | _ \<Rightarrow> None)\<rparr>"

text \<open>
  A world whose log directory holds the active file and an older log file, and a writer
  before its initialisation, configured without compression and without a retention time.
\<close>

definition ex_world_backlog :: world where
  "ex_world_backlog =
     ex_world\<lparr>files := [(''log/log.log'', \<lparr>content = ''abc'', modTime = 5\<rparr>),
                        (''log/old.log'', \<lparr>content = ''defg'', modTime = 2\<rparr>)]\<rparr>"

definition ex_writer_new :: FileWriter where
  "ex_writer_new = \<lparr>closed = None, config = ex_config\<lparr>Compress := False\<rparr>, logFile = None,
                    logFileNameFullPath = ''log/log.log'', byteCounter = 0, compressorWG = []\<rparr>"

text \<open>
  The writer and the world in which no rename goes through, after ten more bytes were
  appended to the active file: the counter is at thirteen, above the limit.
\<close>

definition ex_writer_full :: FileWriter where
  "ex_writer_full = ex_writer\<lparr>byteCounter := 13\<rparr>"

definition ex_world_full :: world where
  "ex_world_full =
     ex_world_no_rename
       \<lparr>files := [(''log/log.log'', \<lparr>content = ''abc0123456789'', modTime = 1000\<rparr>)],
        oslog := [Call_Write ''log/log.log'' ''0123456789'']\<rparr>"

text \<open>
  The times whose year has four digits, with the wall-clock fields in the ranges in which
  package \<^verbatim>\<open>time\<close> presents them, and the fields that the archive time stamp shows,
  from the most significant to the least: the fraction of the second is cut to five digits.
\<close>

definition four_digit_year :: "Time \<Rightarrow> bool" where
  "four_digit_year t =
     (0 \<le> tYear t \<and> tYear t \<le> 9999 \<and> 1 \<le> tMonth t \<and> tMonth t \<le> 12 \<and>
      1 \<le> tDay t \<and> tDay t \<le> 31 \<and> tHour t < 24 \<and> tMinute t < 60 \<and> tSecond t < 60 \<and>
      tNanosecond t < 1000000000)"

definition stamp_fields :: "Time \<Rightarrow> nat list" where
  "stamp_fields t =
     [nat (tYear t), tMonth t, tDay t, tHour t, tMinute t, tSecond t, tNanosecond t div 10000]"

text \<open>The example clock one second later.\<close>

definition ex_time_later :: Time where
  "ex_time_later = ex_time\<lparr>tSecond := 10\<rparr>"

text \<open>
  The world with the archived log file when the writes to the file under the compressed
  name fail.
\<close>

definition ex_world_archived_no_trailer :: world where
  "ex_world_archived_no_trailer =
     ex_world_archived
       \<lparr>fault := (\<lambda>h c. case c of
                     Call_Write p b \<Rightarrow>
                       (if p = ''log/log-2024-03-01T12-05-09.00045.log.gz'' then Some 0 else None)
                   | _ \<Rightarrow> None)\<rparr>"

text \<open>
  The first world when no file can be opened for writing, and the writer configured
  without compression.
\<close>

definition ex_world_no_open :: world where
  "ex_world_no_open =
     ex_world\<lparr>fault := (\<lambda>h c. case c of Call_OpenFile p f \<Rightarrow> Some 0 | _ \<Rightarrow> None)\<rparr>"

definition ex_writer_plain :: FileWriter where
  "ex_writer_plain = ex_writer\<lparr>config := ex_config\<lparr>Compress := False\<rparr>\<rparr>"

text \<open>
  A configuration that keeps files for one nanosecond and rotates above two bytes, and a
  writer before its initialisation with a limit of two bytes and no retention time.
\<close>

definition ex_config_short :: FileWriterConfig where
  "ex_config_short = \<lparr>LogDirName = ''log'', LogFileName = ''log.log'', Compress = False,
                      MaxTimeTimeToKeep = 1, MaxLogFileSizeBytes = 2\<rparr>"

definition ex_writer_small :: FileWriter where
  "ex_writer_small =
     ex_writer_new\<lparr>config := ex_config\<lparr>Compress := False, MaxLogFileSizeBytes := 2\<rparr>\<rparr>"

text \<open>
  The writer and the world after a write of ten bytes whose rotation could not open the
  new active file: the writer has no file.
\<close>

definition ex_writer_no_file :: FileWriter where
  "ex_writer_no_file = ex_writer_plain\<lparr>byteCounter := 13, logFile := None\<rparr>"

definition ex_world_no_file :: world where
  "ex_world_no_file =
     ex_world_no_open
       \<lparr>files := [(''log/log-2024-03-01T12-05-09.00045.log'',
                   \<lparr>content = ''abc0123456789'', modTime = 1000\<rparr>)],
        oslog := [Call_Write ''log/log.log'' ''0123456789'', Call_Close ''log/log.log'',
                  Call_MkdirAll ''log'',
                  Call_Rename ''log/log.log'' ''log/log-2024-03-01T12-05-09.00045.log'',
                  Call_OpenFile ''log/log.log'' O_APPEND_WRONLY_CREATE]\<rparr>"

section \<open>Lemmas about the model\<close>

lemma ex_unixNano: "unixNano ex_time = 1000"
  by (simp add: ex_time_def)

lemmas ex_defs = ex_unixNano ex_world_def ex_config_def ex_writer_def ex_world_no_mkdir_def
  ex_world_no_rename_def ex_world_archived_def ex_world_archived_no_rename_def
  ex_world_backlog_def ex_writer_new_def ex_writer_full_def ex_world_full_def
  ex_world_archived_no_trailer_def ex_world_no_open_def ex_writer_plain_def
  ex_config_short_def ex_writer_small_def ex_writer_no_file_def ex_world_no_file_def

lemma take_min_length: "take (min (length xs) k) xs = take k xs"
  by (simp add: min_def)

subsection \<open>What the background compressions leave of the writer\<close>

lemma compress_writer:
  "fst (compress w fn wld) = w\<lparr>compressorWG := remove1 fn (compressorWG w)\<rparr>"
  by (simp add: compress_def Let_def split: prod.splits sum.splits)

lemma Wait_fold_writer:
  "fst (foldl (\<lambda>(w', wld') fn. compress w' fn wld') (w, wld) fns) =
     w\<lparr>compressorWG := foldl (\<lambda>l fn. remove1 fn l) (compressorWG w) fns\<rparr>"
proof (induction fns arbitrary: w wld)
  case Nil
  show ?case by simp
next
  case (Cons fn fns)
  obtain w1 wld1 where c: "compress w fn wld = (w1, wld1)" by (cases "compress w fn wld")
  have w1: "w1 = w\<lparr>compressorWG := remove1 fn (compressorWG w)\<rparr>"
    using compress_writer [of w fn wld] c by simp
  show ?case using Cons.IH [of w1 wld1] by (simp add: c w1)
qed

lemma Wait_writer:
  "fst (compressorWG_Wait w wld) =
     w\<lparr>compressorWG := foldl (\<lambda>l fn. remove1 fn l) (compressorWG w) (compressorWG w)\<rparr>"
  by (simp add: compressorWG_Wait_def Wait_fold_writer)

lemma Close_closed: "closed (fst (snd (Close w wld))) = Some True"
proof -
  obtain w2 wld1 where a: "compressorWG_Wait (w\<lparr>closed := Some True\<rparr>) wld = (w2, wld1)"
    by (cases "compressorWG_Wait (w\<lparr>closed := Some True\<rparr>) wld")
  have "closed w2 = Some True"
    using Wait_writer [of "w\<lparr>closed := Some True\<rparr>" wld] a by simp
  then show ?thesis
    by (simp add: Close_def a split: prod.splits)
qed

lemma Write_closed:
  "closed w \<noteq> None \<Longrightarrow> Write w msg wld = (Return (0, Some ErrClosed), w, wld)"
  by (simp add: Write_def)

lemma Writes_closed:
  "closed w \<noteq> None \<Longrightarrow>
   Writes w msgs wld = (map (\<lambda>msg. Return (0, Some ErrClosed)) msgs, w, wld)"
  by (induction msgs) (simp_all add: Write_closed)





subsection \<open>What the sweep, the archiver and the initialisation leave of the writer\<close>

lemma cleanup_range_fields:
  "config (fst (cleanup_range dirEnts w wld)) = config w \<and>
   logFileNameFullPath (fst (cleanup_range dirEnts w wld)) = logFileNameFullPath w \<and>
   closed (fst (cleanup_range dirEnts w wld)) = closed w \<and>
   byteCounter (fst (cleanup_range dirEnts w wld)) = byteCounter w \<and>
   logFile (fst (cleanup_range dirEnts w wld)) = logFile w"
proof (induction dirEnts arbitrary: w wld)
  case Nil
  show ?case by simp
next
  case (Cons dirEnt dirEnts)
  show ?case
    by (simp add: Let_def Cons.IH go_compress_def split: prod.splits sum.splits)
qed

lemma cleanup_fields:
  "config (fst (snd (cleanup w wld))) = config w \<and>
   logFileNameFullPath (fst (snd (cleanup w wld))) = logFileNameFullPath w \<and>
   closed (fst (snd (cleanup w wld))) = closed w \<and>
   byteCounter (fst (snd (cleanup w wld))) = byteCounter w \<and>
   logFile (fst (snd (cleanup w wld))) = logFile w"
proof (cases "os_ReadDir (LogDirName (config w)) wld")
  case (Pair r wld1)
  show ?thesis
  proof (cases r)
    case (Inl e)
    then show ?thesis using Pair by (simp add: cleanup_def)
  next
    case (Inr dirEnts)
    obtain w1 wld2 where c: "cleanup_range dirEnts w wld1 = (w1, wld2)"
      by (cases "cleanup_range dirEnts w wld1")
    show ?thesis
      using cleanup_range_fields [of dirEnts w wld1] Pair Inr c by (simp add: cleanup_def)
  qed
qed

lemma archive_writer:
  "fst (snd (archive w fn wld)) = w \<or>
   fst (snd (archive w fn wld)) = w\<lparr>compressorWG := compressorWG w @ [archiveName (clock wld) (logFileNameFullPath w)]\<rparr>"
  by (simp add: archive_def Let_def go_compress_def split: prod.splits option.splits)

lemma archive_config:
  "config (fst (snd (archive w fn wld))) = config w"
  "logFileNameFullPath (fst (snd (archive w fn wld))) = logFileNameFullPath w"
  "closed (fst (snd (archive w fn wld))) = closed w"
  using archive_writer [of w fn wld] by auto

lemma cleanup_config:
  "config (fst (snd (cleanup w wld))) = config w"
  "logFileNameFullPath (fst (snd (cleanup w wld))) = logFileNameFullPath w"
  "closed (fst (snd (cleanup w wld))) = closed w"
  "byteCounter (fst (snd (cleanup w wld))) = byteCounter w"
  "logFile (fst (snd (cleanup w wld))) = logFile w"
  using cleanup_fields [of w wld] by simp_all

lemma initialize_config:
  "config (fst (snd (initialize w wld))) = config w \<and>
   logFileNameFullPath (fst (snd (initialize w wld))) = logFileNameFullPath w \<and>
   closed (fst (snd (initialize w wld))) = closed w"
proof -
  have c: "\<And>e w1 wld1 wld2. cleanup w wld1 = (e, w1, wld2) \<Longrightarrow>
      config w1 = config w \<and> logFileNameFullPath w1 = logFileNameFullPath w \<and> closed w1 = closed w"
    using cleanup_config by (metis fst_conv snd_conv)
  have a: "\<And>e w1 w2 wld3 wld4. archive w1 (logFileNameFullPath w1) wld3 = (e, w2, wld4) \<Longrightarrow>
      config w2 = config w1 \<and> logFileNameFullPath w2 = logFileNameFullPath w1 \<and> closed w2 = closed w1"
    using archive_config by (metis fst_conv snd_conv)
  show ?thesis
    unfolding initialize_def
    by (auto split: prod.splits option.splits sum.splits if_splits dest!: c a)
qed

lemma initialize_logFile:
  "initialize w wld = (None, w', wld') \<Longrightarrow>
     logFile w' = Some \<lparr>fname = logFileNameFullPath w, fclosed = False\<rparr>"
proof -
  have c: "\<And>e w1 wld1 wld2. cleanup w wld1 = (e, w1, wld2) \<Longrightarrow>
      logFileNameFullPath w1 = logFileNameFullPath w"
    using cleanup_config by (metis fst_conv snd_conv)
  have a: "\<And>e w1 w2 wld3 wld4. archive w1 (logFileNameFullPath w1) wld3 = (e, w2, wld4) \<Longrightarrow>
      logFileNameFullPath w2 = logFileNameFullPath w1"
    using archive_config by (metis fst_conv snd_conv)
  assume "initialize w wld = (None, w', wld')"
  then show ?thesis
    unfolding initialize_def
    by (auto simp: os_OpenFile_def os_call_def split: prod.splits option.splits sum.splits if_splits dest!: c a)
qed

subsection \<open>The example states, evaluated\<close>

lemma ex_paths:
  "path_Join [''./log'', ''log.log''] = ''log/log.log''"
  "filepath_Join [''./log'', ''log.log''] = ''log/log.log''"
  "Clean ''./log'' = ''log''"
  "filepath_Dir ''log/log.log'' = ''log''"
  "filepath_Base ''log/log.log'' = ''log.log''"
  "strings_HasSuffix ''log.log'' ''log''"
  by code_simp+

lemmas os_defs = os_call_def os_MkdirAll_def os_ReadDir_def DirEntry_Info_def os_Stat_def
  os_OpenFile_def os_Open_def os_Rename_def os_Remove_def File_Close_def File_Write_def
  io_Copy_gzip_def file_info_def new_file_def time_Since_def close_local_def
  File_Read_def File_renamed_def gzip_NewWriter_def gzip_Writer_Close_def compress_deferred_def

lemma ex_NewFileWriter: "NewFileWriter \<lparr>LogDirName = [], LogFileName = [], Compress = False,
        MaxTimeTimeToKeep = 0, MaxLogFileSizeBytes = 0\<rparr> ex_world =
     (Inr \<lparr>closed = None,
          config = \<lparr>LogDirName = ''./log'', LogFileName = ''log.log'', Compress = False,
                    MaxTimeTimeToKeep = 0, MaxLogFileSizeBytes = 1000000\<rparr>,
          logFile = Some \<lparr>fname = ''log/log.log'', fclosed = False\<rparr>,
          logFileNameFullPath = ''log/log.log'', byteCounter = 3, compressorWG = []\<rparr>,
      ex_world\<lparr>oslog := [Call_MkdirAll ''./log'', Call_ReadDir ''./log'',
         Call_Info ''log/log.log'', Call_Stat ''log/log.log'',
         Call_OpenFile ''log/log.log'' O_APPEND_WRONLY_CREATE]\<rparr>)"
  by (simp add: NewFileWriter_def initialize_def cleanup_def os_defs ex_defs ex_paths
      defaultLogFileSizeBytes_def defaultLogDirName_def defaultLogFileName_def Let_def)

lemma ex_Close:
  "Close ex_writer ex_world =
     (None,
      ex_writer\<lparr>closed := Some True, logFile := Some \<lparr>fname = ''log/log.log'', fclosed = True\<rparr>\<rparr>,
      ex_world\<lparr>oslog := [Call_Close ''log/log.log'']\<rparr>)"
  by (simp add: Close_def compressorWG_Wait_def File_Close_def os_call_def ex_defs)


subsection \<open>Evaluating the time stamp and the archive name\<close>

lemma digit_char_table:
  "digit_char 0 = CHR ''0''" "digit_char 1 = CHR ''1''" "digit_char 2 = CHR ''2''"
  "digit_char 3 = CHR ''3''" "digit_char 4 = CHR ''4''" "digit_char 5 = CHR ''5''"
  "digit_char 6 = CHR ''6''" "digit_char 7 = CHR ''7''" "digit_char 8 = CHR ''8''"
  "digit_char 9 = CHR ''9''" "digit_char (Suc 0) = CHR ''1''"
  by code_simp+

lemma decimal_small: "n < 10 \<Longrightarrow> decimal n = [digit_char n]"
  by (simp add: decimal.simps)

lemma decimal_large: "10 \<le> n \<Longrightarrow> decimal n = decimal (n div 10) @ [digit_char (n mod 10)]"
  by (subst decimal.simps) simp

lemma replicate_numeral: "replicate (numeral k) x = x # replicate (pred_numeral k) x"
  by (simp add: numeral_eq_Suc)

lemma ex_Format: "Format_archiveNameFormat ex_time = ''2024-03-01T12-05-09.00045''"
  by (simp add: Format_archiveNameFormat_def appendNano5_def appendInt_def decimal_small
      decimal_large digit_char_table replicate_numeral ex_time_def)

lemma ex_paths2:
  "filepath_Ext ''log/log.log'' = ''.log''"
  "filepath_Join [''log'', ''log-2024-03-01T12-05-09.00045.log''] = ''log/log-2024-03-01T12-05-09.00045.log''"
  "filepath_Join [''log'', ''log.log''] = ''log/log.log''"
  "filepath_Join [''log'', ''old.log''] = ''log/old.log''"
  "Clean ''log'' = ''log''"
  "filepath_Dir ''log/old.log'' = ''log''"
  "filepath_Base ''log/old.log'' = ''old.log''"
  "strings_HasSuffix ''old.log'' ''log''"
  by code_simp+

lemma ex_archiveName:
  "archiveName ex_time ''log/log.log'' = ''log/log-2024-03-01T12-05-09.00045.log''"
  by (simp add: archiveName_def ex_Format ex_paths ex_paths2)

subsection \<open>The sweep does not read the compression flag\<close>

lemma cleanup_range_ignores_Compress:
  "cleanup_range dirEnts (w\<lparr>config := (config w)\<lparr>Compress := b\<rparr>\<rparr>) wld =
     (case cleanup_range dirEnts w wld of
        (w', wld') \<Rightarrow> (w'\<lparr>config := (config w')\<lparr>Compress := b\<rparr>\<rparr>, wld'))"
proof (induction dirEnts arbitrary: w wld)
  case Nil
  show ?case by simp
next
  case (Cons dirEnt dirEnts)
  have g: "\<And>fn. go_compress (w\<lparr>config := (config w)\<lparr>Compress := b\<rparr>\<rparr>) fn =
      (go_compress w fn)\<lparr>config := (config (go_compress w fn))\<lparr>Compress := b\<rparr>\<rparr>"
    by (simp add: go_compress_def)
  show ?case
    by (simp add: Let_def Cons.IH g split: prod.splits sum.splits)
qed

subsection \<open>The example states under faults, evaluated\<close>

lemma ex_Write_no_mkdir:
  "Write ex_writer ''0123456789'' ex_world_no_mkdir =
     (Return (10, None),
      ex_writer\<lparr>byteCounter := 13, logFile := Some \<lparr>fname = ''log/log.log'', fclosed = True\<rparr>\<rparr>,
      ex_world_no_mkdir
        \<lparr>files := [(''log/log.log'', \<lparr>content = ''abc0123456789'', modTime = 1000\<rparr>)],
         oslog := [Call_Write ''log/log.log'' ''0123456789'', Call_Close ''log/log.log'',
                   Call_MkdirAll ''log'']\<rparr>)"
  by (simp add: Write_def rotate_def os_defs ex_defs int64_def Let_def)

lemma ex_rotate_no_mkdir:
  "rotate (ex_writer\<lparr>byteCounter := 13\<rparr>)
     (ex_world_no_mkdir
        \<lparr>files := [(''log/log.log'', \<lparr>content = ''abc0123456789'', modTime = 1000\<rparr>)],
         oslog := [Call_Write ''log/log.log'' ''0123456789'']\<rparr>) =
     (Return (Some ErrIO),
      ex_writer\<lparr>byteCounter := 13, logFile := Some \<lparr>fname = ''log/log.log'', fclosed = True\<rparr>\<rparr>,
      ex_world_no_mkdir
        \<lparr>files := [(''log/log.log'', \<lparr>content = ''abc0123456789'', modTime = 1000\<rparr>)],
         oslog := [Call_Write ''log/log.log'' ''0123456789'', Call_Close ''log/log.log'',
                   Call_MkdirAll ''log'']\<rparr>)"
  by (simp add: rotate_def os_defs ex_defs Let_def)

lemma ex_File_Write_no_mkdir:
  "File_Write (logFile ex_writer) ''0123456789'' ex_world_no_mkdir =
     ((10, None),
      ex_world_no_mkdir
        \<lparr>files := [(''log/log.log'', \<lparr>content = ''abc0123456789'', modTime = 1000\<rparr>)],
         oslog := [Call_Write ''log/log.log'' ''0123456789'']\<rparr>)"
  by (simp add: os_defs ex_defs ex_writer_def Let_def)

lemma ex_rotate_no_rename:
  "rotate ex_writer_full ex_world_full =
     (Return None,
      ex_writer_full\<lparr>logFile := Some \<lparr>fname = ''log/log.log'', fclosed = False\<rparr>, byteCounter := 0\<rparr>,
      ex_world_full
        \<lparr>oslog := [Call_Write ''log/log.log'' ''0123456789'', Call_Close ''log/log.log'',
                   Call_MkdirAll ''log'',
                   Call_Rename ''log/log.log'' ''log/log-2024-03-01T12-05-09.00045.log'',
                   Call_OpenFile ''log/log.log'' O_APPEND_WRONLY_CREATE]\<rparr>)"
  by (simp add: rotate_def archive_def os_defs ex_defs Let_def ex_archiveName)

lemma ex_cleanup_backlog:
  "cleanup ex_writer_new ex_world_backlog =
     (None, ex_writer_new\<lparr>compressorWG := [''log/old.log'']\<rparr>,
      ex_world_backlog\<lparr>oslog := [Call_ReadDir ''log'', Call_Info ''log/log.log'',
                                  Call_Info ''log/old.log'']\<rparr>)"
  by (simp add: cleanup_def os_defs ex_defs ex_config_def ex_paths ex_paths2 Let_def go_compress_def)

lemma ex_compress_no_rename:
  "compress ex_writer ''log/log-2024-03-01T12-05-09.00045.log'' ex_world_archived_no_rename =
     (ex_writer,
      ex_world_archived_no_rename
        \<lparr>files := [(''log/log-2024-03-01T12-05-09.00045.log.gz.processing'',
                    \<lparr>content = ''zabc'', modTime = 1000\<rparr>)],
         oslog := [Call_Open ''log/log-2024-03-01T12-05-09.00045.log'',
                   Call_OpenFile ''log/log-2024-03-01T12-05-09.00045.log.gz.processing''
                     O_CREATE_TRUNC_WRONLY,
                   Call_Read ''log/log-2024-03-01T12-05-09.00045.log'',
                   Call_Write ''log/log-2024-03-01T12-05-09.00045.log.gz.processing'' ''za'',
                   Call_Rename ''log/log-2024-03-01T12-05-09.00045.log.gz.processing''
                     ''log/log-2024-03-01T12-05-09.00045.log.gz'',
                   Call_Remove ''log/log-2024-03-01T12-05-09.00045.log'',
                   Call_Write ''log/log-2024-03-01T12-05-09.00045.log.gz.processing'' ''bc'',
                   Call_Close ''log/log-2024-03-01T12-05-09.00045.log.gz.processing'',
                   Call_Close ''log/log-2024-03-01T12-05-09.00045.log'']\<rparr>)"
  by (simp add: compress_def os_defs ex_defs Let_def compressedExtension_def
      processingExtenstion_def)

subsection \<open>Appending below the limit\<close>

lemma int64_id: "- (2 ^ 63) \<le> x \<Longrightarrow> x < 2 ^ 63 \<Longrightarrow> int64 x = x"
  by (simp add: int64_def)

lemma rotate_calls:
  assumes "rotate w wld = (out, w', wld')"
  shows "(\<exists>s. out = Panic s) \<or>
         (\<exists>f rest. logFile w = Some f \<and> oslog wld' = oslog wld @ Call_Close (fname f) # rest)"
  using assms
  by (auto simp: rotate_def archive_def os_defs Let_def
      split: option.splits prod.splits sum.splits if_splits)

lemma File_Write_open:
  assumes "\<not> fclosed f" and "fault wld (oslog wld) (Call_Write (fname f) msg) = None"
  shows "File_Write (Some f) msg wld =
     ((length msg, None),
      wld\<lparr>oslog := oslog wld @ [Call_Write (fname f) msg],
          files := (case map_of (files wld) (fname f) of
                      None \<Rightarrow> files wld
                    | Some i \<Rightarrow> AList.update (fname f)
                        (i\<lparr>content := content i @ msg, modTime := unixNano (clock wld)\<rparr>)
                        (files wld))\<rparr>)"
  using assms by (simp add: File_Write_def os_call_def Let_def split: option.splits)

lemma Write_below_limit:
  assumes "closed w = None" and "logFile w = Some f" and "\<not> fclosed f"
    and "fault wld (oslog wld) (Call_Write (fname f) msg) = None"
    and "- (2 ^ 63) \<le> byteCounter w" and "MaxLogFileSizeBytes (config w) < 2 ^ 63"
    and "byteCounter w + int (length msg) \<le> MaxLogFileSizeBytes (config w)"
  shows "Write w msg wld =
     (Return (length msg, None), w\<lparr>byteCounter := byteCounter w + int (length msg)\<rparr>,
      snd (File_Write (Some f) msg wld))"
proof -
  have "int64 (byteCounter w + int (length msg)) = byteCounter w + int (length msg)"
    using assms(5,6,7) by (intro int64_id) auto
  then show ?thesis
    using assms by (simp add: Write_def File_Write_open Let_def)
qed

lemma File_Write_frame:
  "fault (snd (File_Write fl msg wld)) = fault wld"
  "clock (snd (File_Write fl msg wld)) = clock wld"
  "gzip (snd (File_Write fl msg wld)) = gzip wld"
  by (simp_all add: File_Write_def os_call_def Let_def split: option.splits)

lemma Writes_below_limit:
  assumes "closed w = None" and "logFile w = Some f" and "\<not> fclosed f"
    and "\<And>h m. fault wld h (Call_Write (fname f) m) = None"
    and "- (2 ^ 63) \<le> byteCounter w" and "MaxLogFileSizeBytes (config w) < 2 ^ 63"
    and "byteCounter w + int (length (concat msgs)) \<le> MaxLogFileSizeBytes (config w)"
  shows "Writes w msgs wld =
     (map (\<lambda>m. Return (length m, None)) msgs,
      w\<lparr>byteCounter := byteCounter w + int (length (concat msgs))\<rparr>,
      foldl (\<lambda>wl m. snd (File_Write (Some f) m wl)) wld msgs)"
  using assms
proof (induction msgs arbitrary: w wld)
  case Nil
  show ?case by simp
next
  case (Cons msg msgs)
  let ?w1 = "w\<lparr>byteCounter := byteCounter w + int (length msg)\<rparr>"
  let ?wld1 = "snd (File_Write (Some f) msg wld)"
  have le: "byteCounter w + int (length msg) \<le> MaxLogFileSizeBytes (config w)"
    using Cons.prems(7) by simp
  have step: "Write w msg wld = (Return (length msg, None), ?w1, ?wld1)"
    using Cons.prems(1-3) Cons.prems(4) [of "oslog wld" msg] Cons.prems(5,6) le
    by (rule Write_below_limit)
  have f1: "\<And>h m. fault ?wld1 h (Call_Write (fname f) m) = None"
    using Cons.prems(4) by (simp add: File_Write_frame)
  have rest: "Writes ?w1 msgs ?wld1 =
     (map (\<lambda>m. Return (length m, None)) msgs,
      ?w1\<lparr>byteCounter := byteCounter ?w1 + int (length (concat msgs))\<rparr>,
      foldl (\<lambda>wl m. snd (File_Write (Some f) m wl)) ?wld1 msgs)"
    using Cons.prems(1,2,3,5,6,7) f1 by (intro Cons.IH) auto
  show ?case by (simp add: step rest add.assoc)
qed

lemma appends_oslog:
  assumes "\<not> fclosed f"
  shows "oslog (foldl (\<lambda>wl m. snd (File_Write (Some f) m wl)) wld msgs) =
         oslog wld @ map (Call_Write (fname f)) msgs"
  using assms
  by (induction msgs arbitrary: wld) (simp_all add: File_Write_def os_call_def Let_def split: option.splits)

lemma appends_files:
  assumes "\<not> fclosed f" and "\<And>h m. fault wld h (Call_Write (fname f) m) = None"
  shows "map_of (files (foldl (\<lambda>wl m. snd (File_Write (Some f) m wl)) wld msgs)) p =
         (if p = fname f \<and> msgs \<noteq> []
          then map_option (\<lambda>i. i\<lparr>content := content i @ concat msgs, modTime := unixNano (clock wld)\<rparr>)
                 (map_of (files wld) p)
          else map_of (files wld) p)"
  using assms
proof (induction msgs arbitrary: wld)
  case Nil
  show ?case by simp
next
  case (Cons msg msgs)
  let ?wld1 = "snd (File_Write (Some f) msg wld)"
  have f1: "\<And>h m. fault ?wld1 h (Call_Write (fname f) m) = None"
    using Cons.prems(2) by (simp add: File_Write_frame)
  have s: "map_of (files ?wld1) p =
     (if p = fname f
      then map_option (\<lambda>i. i\<lparr>content := content i @ msg, modTime := unixNano (clock wld)\<rparr>)
             (map_of (files wld) p)
      else map_of (files wld) p)"
    using Cons.prems by (simp add: File_Write_open update_conv' split: option.splits)
  show ?case
    using Cons.IH [OF Cons.prems(1) f1] s
    by (cases "map_of (files wld) p") (auto simp: File_Write_frame)
qed

lemma ex_File_Write:
  "File_Write (logFile ex_writer) ''0123456789'' ex_world =
     ((10, None),
      ex_world\<lparr>files := [(''log/log.log'', \<lparr>content = ''abc0123456789'', modTime = 1000\<rparr>)],
                oslog := [Call_Write ''log/log.log'' ''0123456789'']\<rparr>)"
  by (simp add: os_defs ex_defs Let_def)

lemma ex_Write_rotates:
  "Write ex_writer ''0123456789'' ex_world =
     (Return (10, None),
      ex_writer\<lparr>logFile := Some \<lparr>fname = ''log/log.log'', fclosed = False\<rparr>, byteCounter := 0,
                 compressorWG := [''log/log-2024-03-01T12-05-09.00045.log'']\<rparr>,
      ex_world\<lparr>files := [(''log/log-2024-03-01T12-05-09.00045.log'',
                           \<lparr>content = ''abc0123456789'', modTime = 1000\<rparr>),
                          (''log/log.log'', \<lparr>content = [], modTime = 1000\<rparr>)],
                oslog := [Call_Write ''log/log.log'' ''0123456789'', Call_Close ''log/log.log'',
                   Call_MkdirAll ''log'',
                   Call_Rename ''log/log.log'' ''log/log-2024-03-01T12-05-09.00045.log'',
                   Call_OpenFile ''log/log.log'' O_APPEND_WRONLY_CREATE]\<rparr>)"
  by (simp add: Write_def rotate_def archive_def go_compress_def os_defs ex_defs ex_config_def
      int64_def Let_def ex_archiveName)

subsection \<open>Path elements, base names and extensions\<close>

lemma split_elems_nonempty: "split_elems s \<noteq> []"
  by (induction s) (auto split: list.splits)

lemma split_elems_noslash: "CHR ''/'' \<notin> set n \<Longrightarrow> split_elems n = [n]"
  by (induction n) auto

lemma split_elems_append:
  "split_elems (s @ CHR ''/'' # t) = split_elems s @ split_elems t"
  by (induction s) (auto split: list.splits simp: split_elems_nonempty)

lemma split_elems_last:
  "CHR ''/'' \<notin> set n \<Longrightarrow> split_elems (s @ CHR ''/'' # n) = split_elems s @ [n]"
  by (simp add: split_elems_append split_elems_noslash)

lemma join_elems_snoc:
  "join_elems (es @ [n]) = (if es = [] then n else join_elems es @ CHR ''/'' # n)"
  by (induction es rule: join_elems.induct) auto

lemma after_last_slash_append:
  "CHR ''/'' \<notin> set n \<Longrightarrow> after_last_slash (s @ CHR ''/'' # n) = n"
proof -
  assume n: "CHR ''/'' \<notin> set n"
  have t: "takeWhile (\<lambda>c. c \<noteq> CHR ''/'') (rev n) = rev n"
    using n by (auto simp: takeWhile_eq_all_conv)
  have "takeWhile (\<lambda>c. c \<noteq> CHR ''/'') (rev n @ CHR ''/'' # rev s) = rev n"
    using n by (subst takeWhile_append2) auto
  then show ?thesis by (simp add: after_last_slash_def)
qed

lemma after_last_slash_noslash:
  "CHR ''/'' \<notin> set n \<Longrightarrow> after_last_slash n = n"
proof -
  assume n: "CHR ''/'' \<notin> set n"
  have "takeWhile (\<lambda>c. c \<noteq> CHR ''/'') (rev n) = rev n"
    using n by (auto simp: takeWhile_eq_all_conv)
  then show ?thesis unfolding after_last_slash_def by (simp only: rev_rev_ident)
qed

lemma after_last_slash_no_slash: "CHR ''/'' \<notin> set (after_last_slash p)"
  by (auto simp: after_last_slash_def dest: set_takeWhileD)

lemma clean_elem_real:
  "n \<noteq> [] \<Longrightarrow> n \<noteq> ''.'' \<Longrightarrow> n \<noteq> ''..'' \<Longrightarrow> clean_elem rooted out n = out @ [n]"
  by (simp add: clean_elem_def)

lemma Clean_last_elem:
  assumes "CHR ''/'' \<notin> set n" and "n \<noteq> []" and "n \<noteq> ''.''" and "n \<noteq> ''..''"
  shows "after_last_slash (Clean (s @ CHR ''/'' # n)) = n"
proof -
  let ?r = "hd (s @ CHR ''/'' # n) = CHR ''/''"
  let ?out0 = "foldl (clean_elem ?r) [] (split_elems s)"
  have out: "foldl (clean_elem ?r) [] (split_elems (s @ CHR ''/'' # n)) = ?out0 @ [n]"
    using assms by (simp add: split_elems_last clean_elem_real)
  have j: "join_elems (?out0 @ [n]) = (if ?out0 = [] then n else join_elems ?out0 @ CHR ''/'' # n)"
    by (rule join_elems_snoc)
  have a1: "after_last_slash (CHR ''/'' # n) = n"
    using after_last_slash_append [OF assms(1), of "[]"] by simp
  have a2: "\<And>x. after_last_slash (CHR ''/'' # x @ CHR ''/'' # n) = n"
    using after_last_slash_append [OF assms(1)] by (metis append_Cons)
  have a3: "\<And>x. after_last_slash (x @ CHR ''/'' # n) = n"
    using after_last_slash_append [OF assms(1)] .
  have a4: "after_last_slash n = n"
    using after_last_slash_noslash [OF assms(1)] .
  show ?thesis
    unfolding Clean_def Let_def out j
    by (simp add: a1 a2 a3 a4)
qed

lemma clean_elem_no_empty:
  "[] \<notin> set out \<Longrightarrow> [] \<notin> set (clean_elem rooted out e)"
  by (auto simp: clean_elem_def dest: in_set_butlastD)

lemma foldl_clean_no_empty:
  "[] \<notin> set out \<Longrightarrow> [] \<notin> set (foldl (clean_elem rooted) out es)"
  by (induction es arbitrary: out) (simp_all add: clean_elem_no_empty)

lemma join_elems_nonempty:
  "es \<noteq> [] \<Longrightarrow> [] \<notin> set es \<Longrightarrow> join_elems es \<noteq> []"
  by (induction es rule: join_elems.induct) auto

lemma Clean_nonempty: "Clean p \<noteq> []"
proof -
  have "[] \<notin> set (foldl (clean_elem (hd p = CHR ''/'')) [] (split_elems p))"
    by (rule foldl_clean_no_empty) simp
  then show ?thesis
    by (auto simp: Clean_def Let_def dest: join_elems_nonempty)
qed

lemma filepath_Join_pair:
  "d \<noteq> [] \<Longrightarrow> filepath_Join [d, n] = Clean (d @ CHR ''/'' # n)"
  by (simp add: filepath_Join_def)

lemma Ext_suffix: "\<exists>x. after_last_slash p = x @ filepath_Ext p"
proof (cases "CHR ''.'' \<in> set (after_last_slash p)")
  case False
  then show ?thesis by (simp add: filepath_Ext_def)
next
  case True
  let ?e = "after_last_slash p"
  have "dropWhile (\<lambda>c. c \<noteq> CHR ''.'') (rev ?e) \<noteq> []"
    using True by (simp add: dropWhile_eq_Nil_conv)
  moreover have "\<And>y ys. dropWhile (\<lambda>c. c \<noteq> CHR ''.'') (rev ?e) = y # ys \<Longrightarrow> y = CHR ''.''"
    using hd_dropWhile [of "\<lambda>c. c \<noteq> CHR ''.''" "rev ?e"] by (metis list.sel(1) list.simps(3))
  ultimately obtain ys where d: "dropWhile (\<lambda>c. c \<noteq> CHR ''.'') (rev ?e) = CHR ''.'' # ys"
    by (cases "dropWhile (\<lambda>c. c \<noteq> CHR ''.'') (rev ?e)") auto
  have "rev ?e = takeWhile (\<lambda>c. c \<noteq> CHR ''.'') (rev ?e) @ CHR ''.'' # ys"
    using takeWhile_dropWhile_id [of "\<lambda>c. c \<noteq> CHR ''.''" "rev ?e"] d by simp
  then have "?e = rev ys @ CHR ''.'' # rev (takeWhile (\<lambda>c. c \<noteq> CHR ''.'') (rev ?e))"
    by (metis rev_append rev.simps(2) rev_rev_ident append.assoc append_Cons append_Nil)
  then show ?thesis using True by (auto simp: filepath_Ext_def Let_def)
qed

lemma Base_cases:
  "filepath_Base p = ''.'' \<and> p = []
   \<or> filepath_Base p = ''/'' \<and> p \<noteq> [] \<and> after_last_slash p = []
   \<or> filepath_Base p = after_last_slash p \<and> after_last_slash p \<noteq> []
   \<or> filepath_Base p \<noteq> [] \<and> CHR ''/'' \<notin> set (filepath_Base p) \<and> after_last_slash p = []"
proof (cases "p = []")
  case True
  then show ?thesis by (simp add: filepath_Base_def)
next
  case False
  show ?thesis
  proof (cases "last p = CHR ''/''")
    case l: False
    have "dropWhile (\<lambda>c. c = CHR ''/'') (rev p) = rev p"
      using False l by (cases "rev p") (auto simp: last_rev hd_rev)
    moreover have "after_last_slash p \<noteq> []"
      using False l by (cases "rev p") (auto simp: after_last_slash_def last_rev hd_rev)
    ultimately show ?thesis using False by (simp add: filepath_Base_def Let_def)
  next
    case l: True
    have e: "after_last_slash p = []"
      using False l by (cases "rev p") (auto simp: after_last_slash_def last_rev hd_rev)
    let ?s = "rev (dropWhile (\<lambda>c. c = CHR ''/'') (rev p))"
    show ?thesis
    proof (cases "after_last_slash ?s = []")
      case b: False
      have "filepath_Base p = after_last_slash ?s"
        using False b by (simp add: filepath_Base_def Let_def)
      then show ?thesis using e b after_last_slash_no_slash [of ?s] by simp
    next
      case b: True
      have B: "filepath_Base p = ''/''"
        using False b by (simp add: filepath_Base_def Let_def)
      have "?s = []"
      proof (rule ccontr)
        assume ne: "?s \<noteq> []"
        then have "dropWhile (\<lambda>c. c = CHR ''/'') (rev p) \<noteq> []" by simp
        then have "hd (dropWhile (\<lambda>c. c = CHR ''/'') (rev p)) \<noteq> CHR ''/''"
          using hd_dropWhile [of "\<lambda>c. c = CHR ''/''" "rev p"] by simp
        then have "takeWhile (\<lambda>c. c \<noteq> CHR ''/'') (dropWhile (\<lambda>c. c = CHR ''/'') (rev p)) \<noteq> []"
          using \<open>dropWhile (\<lambda>c. c = CHR ''/'') (rev p) \<noteq> []\<close>
          by (cases "dropWhile (\<lambda>c. c = CHR ''/'') (rev p)") auto
        then show False using b by (simp add: after_last_slash_def)
      qed
      show ?thesis using B False e by simp
    qed
  qed
qed

lemma Ext_empty: "after_last_slash p = [] \<Longrightarrow> filepath_Ext p = []"
  by (simp add: filepath_Ext_def)

lemma Ext_of_Base: "\<exists>x. filepath_Base p = x @ filepath_Ext p"
proof -
  consider "filepath_Base p = after_last_slash p" | "after_last_slash p = []"
    using Base_cases [of p] by (auto simp: after_last_slash_def)
  then show ?thesis
  proof cases
    case 1
    then show ?thesis using Ext_suffix [of p] by simp
  next
    case 2
    then show ?thesis by (simp add: Ext_empty)
  qed
qed

lemma Ext_le_Base: "length (filepath_Ext p) \<le> length (filepath_Base p)"
  using Ext_of_Base [of p] by auto

lemma archiveName_prefix:
  "filepath_Base p = x @ filepath_Ext p \<Longrightarrow>
   take (length (filepath_Base p) - length (filepath_Ext p)) (filepath_Base p) = x"
  by simp

lemma digit_char_set: "d < 10 \<Longrightarrow> digit_char d \<in> set ''0123456789''"
proof -
  assume "d < 10"
  then have "d = 0 \<or> d = 1 \<or> d = 2 \<or> d = 3 \<or> d = 4 \<or> d = 5 \<or> d = 6 \<or> d = 7 \<or> d = 8 \<or> d = 9"
    by arith
  then show ?thesis by (auto simp: digit_char_table)
qed

lemma decimal_set: "set (decimal n) \<subseteq> set ''0123456789''"
proof (induction n rule: decimal.induct)
  case (1 n)
  show ?case
  proof (cases "n < 10")
    case True
    then show ?thesis using digit_char_set [of n] by (simp add: decimal_small)
  next
    case False
    have "n mod 10 < 10" by simp
    then have "digit_char (n mod 10) \<in> set ''0123456789''" by (rule digit_char_set)
    then show ?thesis using False "1.IH" by (simp add: decimal_large)
  qed
qed

lemma decimal_no_slash: "CHR ''/'' \<notin> set (decimal n)"
  using decimal_set [of n] by auto

lemma appendInt_no_slash: "CHR ''/'' \<notin> set (appendInt x width)"
  by (simp add: appendInt_def Let_def decimal_no_slash)

lemma appendNano5_no_slash: "CHR ''/'' \<notin> set (appendNano5 n)"
proof -
  have "set (appendNano5 n) \<subseteq> set (''.'' @ appendInt (int n) 9)"
    unfolding appendNano5_def Let_def by (rule set_take_subset)
  then show ?thesis using appendInt_no_slash [of "int n" 9] by auto
qed

lemma Format_no_slash: "CHR ''/'' \<notin> set (Format_archiveNameFormat t)"
  by (simp add: Format_archiveNameFormat_def appendInt_no_slash appendNano5_no_slash)

lemma Base_no_slash: "filepath_Base p \<noteq> ''/'' \<Longrightarrow> CHR ''/'' \<notin> set (filepath_Base p)"
  using Base_cases [of p] after_last_slash_no_slash [of p] by auto

lemma Base_of_last: "after_last_slash q \<noteq> [] \<Longrightarrow> filepath_Base q = after_last_slash q"
  using Base_cases [of q] by (auto simp: after_last_slash_def)

lemma Dir_nonempty: "filepath_Dir p \<noteq> []"
  by (simp add: filepath_Dir_def Clean_nonempty)

lemma archiveName_Clean:
  assumes "filepath_Base p = x @ filepath_Ext p"
  shows "archiveName t p =
         Clean (filepath_Dir p @ CHR ''/'' # x @ ''-'' @ Format_archiveNameFormat t @ filepath_Ext p)"
  using assms by (simp add: archiveName_def Let_def filepath_Join_pair Dir_nonempty)

lemma stamped_name_real:
  "x @ ''-'' @ s \<noteq> []" "x @ ''-'' @ s \<noteq> ''.''" "x @ ''-'' @ s \<noteq> ''..''"
proof -
  show "x @ ''-'' @ s \<noteq> []" by simp
  show "x @ ''-'' @ s \<noteq> ''.''"
  proof
    assume "x @ ''-'' @ s = ''.''"
    then have "set (x @ ''-'' @ s) = set ''.''" by (rule arg_cong)
    then show False by auto
  qed
  show "x @ ''-'' @ s \<noteq> ''..''"
  proof
    assume "x @ ''-'' @ s = ''..''"
    then have "set (x @ ''-'' @ s) = set ''..''" by (rule arg_cong)
    then show False by auto
  qed
qed


lemma archiveName_last:
  assumes "filepath_Base p = x @ filepath_Ext p" and "filepath_Base p \<noteq> ''/''"
  shows "after_last_slash (archiveName t p) =
         x @ ''-'' @ Format_archiveNameFormat t @ filepath_Ext p"
proof -
  let ?N = "x @ ''-'' @ Format_archiveNameFormat t @ filepath_Ext p"
  have b: "CHR ''/'' \<notin> set (filepath_Base p)" using assms(2) by (rule Base_no_slash)
  have n: "CHR ''/'' \<notin> set ?N" using b assms(1) by (simp add: Format_no_slash)
  have "after_last_slash (Clean (filepath_Dir p @ CHR ''/'' # ?N)) = ?N"
    using n stamped_name_real [of x "Format_archiveNameFormat t @ filepath_Ext p"]
    by (intro Clean_last_elem) simp_all
  then show ?thesis by (simp add: archiveName_Clean [OF assms(1)])
qed

lemma archiveName_Base:
  assumes "filepath_Base p = x @ filepath_Ext p" and "filepath_Base p \<noteq> ''/''"
  shows "filepath_Base (archiveName t p) =
         x @ ''-'' @ Format_archiveNameFormat t @ filepath_Ext p"
proof -
  have "after_last_slash (archiveName t p) \<noteq> []"
    by (simp add: archiveName_last [OF assms])
  then show ?thesis using archiveName_last [OF assms] by (simp add: Base_of_last)
qed


subsection \<open>Numbers printed on a fixed width\<close>

lemma digit_char_less:
  "a < 10 \<Longrightarrow> b < 10 \<Longrightarrow> (digit_char a < digit_char b) = (a < b)"
  by (simp add: digit_char_def less_char_def)

lemma digit_char_inj:
  "a < 10 \<Longrightarrow> b < 10 \<Longrightarrow> (digit_char a = digit_char b) = (a = b)"
proof -
  assume a: "a < 10" and b: "b < 10"
  have "digit_char a = digit_char b \<Longrightarrow> a = b"
  proof -
    assume "digit_char a = digit_char b"
    then have "(of_char (digit_char a) :: nat) = of_char (digit_char b)" by simp
    then show "a = b" using a b by (simp add: digit_char_def)
  qed
  then show ?thesis by auto
qed

lemma append_less_same_length:
  "length xs = length ys \<Longrightarrow>
   ((xs @ us :: 'a :: linorder list) < ys @ vs) = (xs < ys \<or> xs = ys \<and> us < vs)"
  by (induction xs ys rule: list_induct2) auto

lemma decimal_length: "1 \<le> w \<Longrightarrow> n < 10 ^ w \<Longrightarrow> length (decimal n) \<le> w"
proof (induction w arbitrary: n)
  case 0
  then show ?case by simp
next
  case (Suc w)
  show ?case
  proof (cases "n < 10")
    case True
    then show ?thesis by (simp add: decimal_small)
  next
    case False
    then have w: "1 \<le> w" using Suc.prems(2) by (cases w) auto
    have "n div 10 < 10 ^ w" using Suc.prems(2) by (simp add: less_mult_imp_div_less mult.commute)
    then have "length (decimal (n div 10)) \<le> w" using w by (intro Suc.IH)
    then show ?thesis using False by (simp add: decimal_large)
  qed
qed

lemma appendInt_length: "1 \<le> w \<Longrightarrow> n < 10 ^ w \<Longrightarrow> length (appendInt (int n) w) = w"
  using decimal_length [of w n] by (simp add: appendInt_def Let_def)

lemma appendInt_step:
  "1 \<le> w \<Longrightarrow> appendInt (int n) (Suc w) = appendInt (int (n div 10)) w @ [digit_char (n mod 10)]"
proof (cases "n < 10")
  case True
  assume w: "1 \<le> w"
  have "replicate (w - 1) CHR ''0'' @ [CHR ''0''] = replicate w CHR ''0''"
    using w by (cases w) (simp_all add: replicate_append_same)
  then show ?thesis using True by (simp add: appendInt_def Let_def decimal_small digit_char_table)
next
  case False
  then show ?thesis by (simp add: appendInt_def Let_def decimal_large)
qed

lemma lt10_aux:
  "(b::nat) < 10 \<Longrightarrow> d < 10 \<Longrightarrow> (10 * a + b < 10 * c + d) = (a < c \<or> a = c \<and> b < d)"
  by arith

lemma lt10:
  "((m::nat) < n) = (m div 10 < n div 10 \<or> m div 10 = n div 10 \<and> m mod 10 < n mod 10)"
proof -
  have "(10 * (m div 10) + m mod 10 < 10 * (n div 10) + n mod 10) =
        (m div 10 < n div 10 \<or> m div 10 = n div 10 \<and> m mod 10 < n mod 10)"
    by (rule lt10_aux) simp_all
  then show ?thesis by simp
qed

lemma eq10: "((m::nat) = n) = (m div 10 = n div 10 \<and> m mod 10 = n mod 10)"
  by (metis div_mult_mod_eq)

lemma appendInt_order:
  "1 \<le> w \<Longrightarrow> m < 10 ^ w \<Longrightarrow> n < 10 ^ w \<Longrightarrow>
   ((appendInt (int m) w < appendInt (int n) w) = (m < n)) \<and>
   ((appendInt (int m) w = appendInt (int n) w) = (m = n))"
proof (induction w arbitrary: m n)
  case 0
  then show ?case by simp
next
  case (Suc w)
  show ?case
  proof (cases "w = 0")
    case True
    then have "m < 10" "n < 10" using Suc.prems by simp_all
    then show ?thesis
      using True by (simp add: appendInt_def Let_def decimal_small digit_char_less digit_char_inj)
  next
    case False
    then have w: "1 \<le> w" by simp
    have dm: "m div 10 < 10 ^ w" using Suc.prems(2) by (simp add: less_mult_imp_div_less mult.commute)
    have dn: "n div 10 < 10 ^ w" using Suc.prems(3) by (simp add: less_mult_imp_div_less mult.commute)
    have ih: "((appendInt (int (m div 10)) w < appendInt (int (n div 10)) w) = (m div 10 < n div 10)) \<and>
              ((appendInt (int (m div 10)) w = appendInt (int (n div 10)) w) = (m div 10 = n div 10))"
      using w dm dn by (rule Suc.IH)
    have l: "length (appendInt (int (m div 10)) w) = length (appendInt (int (n div 10)) w)"
      using w dm dn by (simp add: appendInt_length)
    have dl: "(digit_char (m mod 10) < digit_char (n mod 10)) = (m mod 10 < n mod 10)"
      by (rule digit_char_less) simp_all
    have di: "(digit_char (m mod 10) = digit_char (n mod 10)) = (m mod 10 = n mod 10)"
      by (rule digit_char_inj) simp_all
    note lt = lt10 [of m n] and eq = eq10 [of m n]
    have A: "(appendInt (int m) (Suc w) < appendInt (int n) (Suc w)) =
             (m div 10 < n div 10 \<or> m div 10 = n div 10 \<and> m mod 10 < n mod 10)"
      using ih dl di
      by (simp add: appendInt_step [OF w] append_less_same_length [OF l])
    have B: "(appendInt (int m) (Suc w) = appendInt (int n) (Suc w)) =
             (m div 10 = n div 10 \<and> m mod 10 = n mod 10)"
      using ih di by (simp add: appendInt_step [OF w])
    show ?thesis
      unfolding A B using lt eq by blast
  qed
qed

lemma appendNano5_fixed:
  assumes "n < 1000000000"
  shows "appendNano5 n = CHR ''.'' # appendInt (int (n div 10000)) 5"
proof -
  have l9: "length (appendInt (int n) 9) = 9"
    using assms by (intro appendInt_length) simp_all
  have s9: "appendInt (int n) 9 = appendInt (int (n div 10)) 8 @ [digit_char (n mod 10)]"
    using appendInt_step [of 8 n] by simp
  have d2: "n div 10 div 10 = n div 100" by (simp add: div_mult2_eq [symmetric])
  have d3: "n div 100 div 10 = n div 1000" by (simp add: div_mult2_eq [symmetric])
  have d4: "n div 1000 div 10 = n div 10000" by (simp add: div_mult2_eq [symmetric])
  have s8: "appendInt (int (n div 10)) 8 =
      appendInt (int (n div 100)) 7 @ [digit_char (n div 10 mod 10)]"
    using appendInt_step [of 7 "n div 10"] by (simp add: d2)
  have s7: "appendInt (int (n div 100)) 7 =
      appendInt (int (n div 1000)) 6 @ [digit_char (n div 100 mod 10)]"
    using appendInt_step [of 6 "n div 100"] by (simp add: d3)
  have s6: "appendInt (int (n div 1000)) 6 =
      appendInt (int (n div 10000)) 5 @ [digit_char (n div 1000 mod 10)]"
    using appendInt_step [of 5 "n div 1000"] by (simp add: d4)
  have l5: "length (appendInt (int (n div 10000)) 5) = 5"
    using assms by (intro appendInt_length) simp_all
  have "take 5 (appendInt (int n) 9) = appendInt (int (n div 10000)) 5"
    using l5 by (simp add: s9 s8 s7 s6)
  then show ?thesis
    using l9 by (simp add: appendNano5_def Let_def)
qed

lemma seg_less:
  "length a = length a' \<Longrightarrow>
   ((a @ c # r :: 'a :: linorder list) < a' @ c # r') = (a < a' \<or> a = a' \<and> r < r')"
  by (simp add: append_less_same_length)

lemma year_digits:
  assumes "four_digit_year t"
  shows "tYear t = int (nat (tYear t))" and "nat (tYear t) < 10 ^ 4"
  using assms unfolding four_digit_year_def by auto

lemma Format_fixed:
  assumes "four_digit_year t"
  shows "Format_archiveNameFormat t =
     appendInt (tYear t) 4 @ CHR ''-'' # appendInt (int (tMonth t)) 2 @ CHR ''-'' #
     appendInt (int (tDay t)) 2 @ CHR ''T'' # appendInt (int (tHour t)) 2 @ CHR ''-'' #
     appendInt (int (tMinute t)) 2 @ CHR ''-'' # appendInt (int (tSecond t)) 2 @ CHR ''.'' #
     appendInt (int (tNanosecond t div 10000)) 5"
proof -
  have "tNanosecond t < 1000000000" using assms unfolding four_digit_year_def by auto
  then show ?thesis by (simp add: Format_archiveNameFormat_def appendNano5_fixed)
qed

lemma stamp_field_lengths:
  assumes "four_digit_year t"
  shows "length (appendInt (tYear t) 4) = 4"
    and "length (appendInt (int (tMonth t)) 2) = 2"
    and "length (appendInt (int (tDay t)) 2) = 2"
    and "length (appendInt (int (tHour t)) 2) = 2"
    and "length (appendInt (int (tMinute t)) 2) = 2"
    and "length (appendInt (int (tSecond t)) 2) = 2"
    and "length (appendInt (int (tNanosecond t div 10000)) 5) = 5"
proof -
  have f: "tNanosecond t div 10000 < 10 ^ 5"
    using assms unfolding four_digit_year_def by auto
  have "length (appendInt (int (nat (tYear t))) 4) = 4"
    using year_digits(2) [OF assms] by (intro appendInt_length) simp_all
  then show "length (appendInt (tYear t) 4) = 4" using year_digits(1) [OF assms] by simp
  show "length (appendInt (int (tMonth t)) 2) = 2"
    using assms by (intro appendInt_length) (simp_all add: four_digit_year_def)
  show "length (appendInt (int (tDay t)) 2) = 2"
    using assms by (intro appendInt_length) (simp_all add: four_digit_year_def)
  show "length (appendInt (int (tHour t)) 2) = 2"
    using assms by (intro appendInt_length) (simp_all add: four_digit_year_def)
  show "length (appendInt (int (tMinute t)) 2) = 2"
    using assms by (intro appendInt_length) (simp_all add: four_digit_year_def)
  show "length (appendInt (int (tSecond t)) 2) = 2"
    using assms by (intro appendInt_length) (simp_all add: four_digit_year_def)
  show "length (appendInt (int (tNanosecond t div 10000)) 5) = 5"
    using f by (intro appendInt_length) simp_all
qed

lemma Format_length:
  "four_digit_year t \<Longrightarrow> length (Format_archiveNameFormat t) = 25"
  by (simp add: Format_fixed stamp_field_lengths)

lemma stamp_field_order:
  assumes "four_digit_year t" and "four_digit_year u"
  shows "(appendInt (tYear t) 4 < appendInt (tYear u) 4) = (nat (tYear t) < nat (tYear u))"
    and "(appendInt (tYear t) 4 = appendInt (tYear u) 4) = (nat (tYear t) = nat (tYear u))"
    and "(appendInt (int (tMonth t)) 2 < appendInt (int (tMonth u)) 2) = (tMonth t < tMonth u)"
    and "(appendInt (int (tMonth t)) 2 = appendInt (int (tMonth u)) 2) = (tMonth t = tMonth u)"
    and "(appendInt (int (tDay t)) 2 < appendInt (int (tDay u)) 2) = (tDay t < tDay u)"
    and "(appendInt (int (tDay t)) 2 = appendInt (int (tDay u)) 2) = (tDay t = tDay u)"
    and "(appendInt (int (tHour t)) 2 < appendInt (int (tHour u)) 2) = (tHour t < tHour u)"
    and "(appendInt (int (tHour t)) 2 = appendInt (int (tHour u)) 2) = (tHour t = tHour u)"
    and "(appendInt (int (tMinute t)) 2 < appendInt (int (tMinute u)) 2) = (tMinute t < tMinute u)"
    and "(appendInt (int (tMinute t)) 2 = appendInt (int (tMinute u)) 2) = (tMinute t = tMinute u)"
    and "(appendInt (int (tSecond t)) 2 < appendInt (int (tSecond u)) 2) = (tSecond t < tSecond u)"
    and "(appendInt (int (tSecond t)) 2 = appendInt (int (tSecond u)) 2) = (tSecond t = tSecond u)"
    and "(appendInt (int (tNanosecond t div 10000)) 5 < appendInt (int (tNanosecond u div 10000)) 5)
          = (tNanosecond t div 10000 < tNanosecond u div 10000)"
    and "(appendInt (int (tNanosecond t div 10000)) 5 = appendInt (int (tNanosecond u div 10000)) 5)
          = (tNanosecond t div 10000 = tNanosecond u div 10000)"
proof -
  have y: "nat (tYear t) < 10 ^ 4" "nat (tYear u) < 10 ^ 4"
    using assms year_digits(2) by simp_all
  have yi: "appendInt (tYear t) 4 = appendInt (int (nat (tYear t))) 4"
    "appendInt (tYear u) 4 = appendInt (int (nat (tYear u))) 4"
    using year_digits(1) [OF assms(1)] year_digits(1) [OF assms(2)] by simp_all
  have f: "tNanosecond t div 10000 < 10 ^ 5" "tNanosecond u div 10000 < 10 ^ 5"
    using assms unfolding four_digit_year_def by auto
  have r: "tMonth t < 10 ^ 2" "tMonth u < 10 ^ 2" "tDay t < 10 ^ 2" "tDay u < 10 ^ 2"
    "tHour t < 10 ^ 2" "tHour u < 10 ^ 2" "tMinute t < 10 ^ 2" "tMinute u < 10 ^ 2"
    "tSecond t < 10 ^ 2" "tSecond u < 10 ^ 2"
    using assms unfolding four_digit_year_def by auto
  have one: "(1::nat) \<le> 4" "(1::nat) \<le> 2" "(1::nat) \<le> 5" by simp_all
  show "(appendInt (tYear t) 4 < appendInt (tYear u) 4) = (nat (tYear t) < nat (tYear u))"
    unfolding yi using appendInt_order [OF one(1) y] by blast
  show "(appendInt (tYear t) 4 = appendInt (tYear u) 4) = (nat (tYear t) = nat (tYear u))"
    unfolding yi using appendInt_order [OF one(1) y] by blast
  show "(appendInt (int (tMonth t)) 2 < appendInt (int (tMonth u)) 2) = (tMonth t < tMonth u)"
    using appendInt_order [OF one(2) r(1,2)] by simp
  show "(appendInt (int (tMonth t)) 2 = appendInt (int (tMonth u)) 2) = (tMonth t = tMonth u)"
    using appendInt_order [OF one(2) r(1,2)] by simp
  show "(appendInt (int (tDay t)) 2 < appendInt (int (tDay u)) 2) = (tDay t < tDay u)"
    using appendInt_order [OF one(2) r(3,4)] by simp
  show "(appendInt (int (tDay t)) 2 = appendInt (int (tDay u)) 2) = (tDay t = tDay u)"
    using appendInt_order [OF one(2) r(3,4)] by simp
  show "(appendInt (int (tHour t)) 2 < appendInt (int (tHour u)) 2) = (tHour t < tHour u)"
    using appendInt_order [OF one(2) r(5,6)] by simp
  show "(appendInt (int (tHour t)) 2 = appendInt (int (tHour u)) 2) = (tHour t = tHour u)"
    using appendInt_order [OF one(2) r(5,6)] by simp
  show "(appendInt (int (tMinute t)) 2 < appendInt (int (tMinute u)) 2) = (tMinute t < tMinute u)"
    using appendInt_order [OF one(2) r(7,8)] by simp
  show "(appendInt (int (tMinute t)) 2 = appendInt (int (tMinute u)) 2) = (tMinute t = tMinute u)"
    using appendInt_order [OF one(2) r(7,8)] by simp
  show "(appendInt (int (tSecond t)) 2 < appendInt (int (tSecond u)) 2) = (tSecond t < tSecond u)"
    using appendInt_order [OF one(2) r(9,10)] by simp
  show "(appendInt (int (tSecond t)) 2 = appendInt (int (tSecond u)) 2) = (tSecond t = tSecond u)"
    using appendInt_order [OF one(2) r(9,10)] by simp
  show "(appendInt (int (tNanosecond t div 10000)) 5 < appendInt (int (tNanosecond u div 10000)) 5)
          = (tNanosecond t div 10000 < tNanosecond u div 10000)"
    using appendInt_order [OF one(3) f] by simp
  show "(appendInt (int (tNanosecond t div 10000)) 5 = appendInt (int (tNanosecond u div 10000)) 5)
          = (tNanosecond t div 10000 = tNanosecond u div 10000)"
    using appendInt_order [OF one(3) f] by simp
qed

lemma Format_sortable:
  assumes "four_digit_year t" and "four_digit_year u"
  shows "(Format_archiveNameFormat t < Format_archiveNameFormat u) = (stamp_fields t < stamp_fields u)"
proof -
  note l = stamp_field_lengths [OF assms(1)] stamp_field_lengths [OF assms(2)]
  have e1: "length (appendInt (tYear t) 4) = length (appendInt (tYear u) 4)"
    and e2: "length (appendInt (int (tMonth t)) 2) = length (appendInt (int (tMonth u)) 2)"
    and e3: "length (appendInt (int (tDay t)) 2) = length (appendInt (int (tDay u)) 2)"
    and e4: "length (appendInt (int (tHour t)) 2) = length (appendInt (int (tHour u)) 2)"
    and e5: "length (appendInt (int (tMinute t)) 2) = length (appendInt (int (tMinute u)) 2)"
    and e6: "length (appendInt (int (tSecond t)) 2) = length (appendInt (int (tSecond u)) 2)"
    by (simp_all add: l)
  show ?thesis
    unfolding Format_fixed [OF assms(1)] Format_fixed [OF assms(2)] stamp_fields_def
      seg_less [OF e1] seg_less [OF e2] seg_less [OF e3] seg_less [OF e4] seg_less [OF e5]
      seg_less [OF e6] stamp_field_order [OF assms]
    by simp
qed

lemma Format_same_fields:
  assumes "four_digit_year t" and "four_digit_year u"
  shows "(Format_archiveNameFormat t = Format_archiveNameFormat u) = (stamp_fields t = stamp_fields u)"
proof -
  have a: "(Format_archiveNameFormat t < Format_archiveNameFormat u) = (stamp_fields t < stamp_fields u)"
    using assms by (rule Format_sortable)
  have b: "(Format_archiveNameFormat u < Format_archiveNameFormat t) = (stamp_fields u < stamp_fields t)"
    using assms(2,1) by (rule Format_sortable)
  show ?thesis using a b by (metis less_irrefl linorder_neqE)
qed

subsection \<open>The shape of archive names\<close>

lemma archive_name_shape:
  assumes "filepath_Base p \<noteq> ''/''" and "four_digit_year t" and "four_digit_year u"
  shows "(\<exists>base. filepath_Base p = base @ filepath_Ext p
            \<and> filepath_Base (archiveName t p) =
                base @ ''-'' @ Format_archiveNameFormat t @ filepath_Ext p)
       \<and> length (Format_archiveNameFormat t) = 25
       \<and> (Format_archiveNameFormat t < Format_archiveNameFormat u) = (stamp_fields t < stamp_fields u)
       \<and> (archiveName t p = archiveName u p) = (stamp_fields t = stamp_fields u)"
proof (intro conjI)
  obtain x where x: "filepath_Base p = x @ filepath_Ext p" using Ext_of_Base by blast
  have bt: "filepath_Base (archiveName t p) = x @ ''-'' @ Format_archiveNameFormat t @ filepath_Ext p"
    using x assms(1) by (rule archiveName_Base)
  have bu: "filepath_Base (archiveName u p) = x @ ''-'' @ Format_archiveNameFormat u @ filepath_Ext p"
    using x assms(1) by (rule archiveName_Base)
  show "\<exists>base. filepath_Base p = base @ filepath_Ext p
            \<and> filepath_Base (archiveName t p) =
                base @ ''-'' @ Format_archiveNameFormat t @ filepath_Ext p"
    using x bt by blast
  show "length (Format_archiveNameFormat t) = 25"
    using assms(2) by (rule Format_length)
  show "(Format_archiveNameFormat t < Format_archiveNameFormat u) = (stamp_fields t < stamp_fields u)"
    using assms(2,3) by (rule Format_sortable)
  have f: "(Format_archiveNameFormat t = Format_archiveNameFormat u) = (stamp_fields t = stamp_fields u)"
    using assms(2,3) by (rule Format_same_fields)
  have "archiveName t p = archiveName u p \<Longrightarrow> Format_archiveNameFormat t = Format_archiveNameFormat u"
  proof -
    assume "archiveName t p = archiveName u p"
    then have "x @ ''-'' @ Format_archiveNameFormat t @ filepath_Ext p =
               x @ ''-'' @ Format_archiveNameFormat u @ filepath_Ext p"
      using bt bu by simp
    then show ?thesis by simp
  qed
  moreover have "Format_archiveNameFormat t = Format_archiveNameFormat u \<Longrightarrow> archiveName t p = archiveName u p"
    by (simp add: archiveName_def)
  ultimately show "(archiveName t p = archiveName u p) = (stamp_fields t = stamp_fields u)"
    using f by blast
qed

subsection \<open>The compression of the example archive, evaluated\<close>

lemma ex_compress:
  "compress ex_writer ''log/log-2024-03-01T12-05-09.00045.log'' ex_world_archived =
     (ex_writer,
      ex_world_archived
        \<lparr>files := [(''log/log-2024-03-01T12-05-09.00045.log.gz'',
                    \<lparr>content = ''zabc'', modTime = 1000\<rparr>)],
         oslog := [Call_Open ''log/log-2024-03-01T12-05-09.00045.log'',
                   Call_OpenFile ''log/log-2024-03-01T12-05-09.00045.log.gz.processing''
                     O_CREATE_TRUNC_WRONLY,
                   Call_Read ''log/log-2024-03-01T12-05-09.00045.log'',
                   Call_Write ''log/log-2024-03-01T12-05-09.00045.log.gz.processing'' ''za'',
                   Call_Rename ''log/log-2024-03-01T12-05-09.00045.log.gz.processing''
                     ''log/log-2024-03-01T12-05-09.00045.log.gz'',
                   Call_Remove ''log/log-2024-03-01T12-05-09.00045.log'',
                   Call_Write ''log/log-2024-03-01T12-05-09.00045.log.gz'' ''bc'',
                   Call_Close ''log/log-2024-03-01T12-05-09.00045.log.gz'',
                   Call_Close ''log/log-2024-03-01T12-05-09.00045.log'']\<rparr>)"
  by (simp add: compress_def os_defs ex_defs Let_def compressedExtension_def
      processingExtenstion_def)

lemma ex_compress_no_trailer:
  "compress ex_writer ''log/log-2024-03-01T12-05-09.00045.log'' ex_world_archived_no_trailer =
     (ex_writer,
      ex_world_archived_no_trailer
        \<lparr>files := [(''log/log-2024-03-01T12-05-09.00045.log.gz'',
                    \<lparr>content = ''za'', modTime = 1000\<rparr>)],
         oslog := [Call_Open ''log/log-2024-03-01T12-05-09.00045.log'',
                   Call_OpenFile ''log/log-2024-03-01T12-05-09.00045.log.gz.processing''
                     O_CREATE_TRUNC_WRONLY,
                   Call_Read ''log/log-2024-03-01T12-05-09.00045.log'',
                   Call_Write ''log/log-2024-03-01T12-05-09.00045.log.gz.processing'' ''za'',
                   Call_Rename ''log/log-2024-03-01T12-05-09.00045.log.gz.processing''
                     ''log/log-2024-03-01T12-05-09.00045.log.gz'',
                   Call_Remove ''log/log-2024-03-01T12-05-09.00045.log'',
                   Call_Write ''log/log-2024-03-01T12-05-09.00045.log.gz'' ''bc'',
                   Call_Close ''log/log-2024-03-01T12-05-09.00045.log.gz'',
                   Call_Close ''log/log-2024-03-01T12-05-09.00045.log'']\<rparr>)"
  by (simp add: compress_def os_defs ex_defs Let_def compressedExtension_def
      processingExtenstion_def)

subsection \<open>A writer without a file\<close>





subsection \<open>The sweep when no call fails\<close>

lemma os_call_frame:
  "fault (snd (os_call c wld)) = fault wld"
  "clock (snd (os_call c wld)) = clock wld"
  by (simp_all add: os_call_def)





subsection \<open>Construction on the example world\<close>








section \<open>Writing after Close\<close>

text \<open>
  Claim C4. After \<^verbatim>\<open>Close\<close> has been called, every later call of \<^verbatim>\<open>Write\<close> returns
  zero bytes and the error \<^verbatim>\<open>os.ErrClosed\<close>, and leaves the writer and the world as they
  were: no call is made on the system and no file changes.
\<close>

theorem Write_after_Close:
  assumes "Close w wld = (err, w', wld')"
  shows "Writes w' msgs wld' = (map (\<lambda>msg. Return (0, Some ErrClosed)) msgs, w', wld')"
proof -
  have "closed w' = Some True" using Close_closed [of w wld] assms by simp
  then show ?thesis by (simp add: Writes_closed)
qed

theorem Write_after_Close_witness:
  "Close ex_writer ex_world =
     (None,
      ex_writer\<lparr>closed := Some True, logFile := Some \<lparr>fname = ''log/log.log'', fclosed = True\<rparr>\<rparr>,
      ex_world\<lparr>oslog := [Call_Close ''log/log.log'']\<rparr>)
   \<and> Writes (ex_writer\<lparr>closed := Some True, logFile := Some \<lparr>fname = ''log/log.log'', fclosed = True\<rparr>\<rparr>)
        [''late'', ''later''] (ex_world\<lparr>oslog := [Call_Close ''log/log.log'']\<rparr>) =
      ([Return (0, Some ErrClosed), Return (0, Some ErrClosed)],
       ex_writer\<lparr>closed := Some True, logFile := Some \<lparr>fname = ''log/log.log'', fclosed = True\<rparr>\<rparr>,
       ex_world\<lparr>oslog := [Call_Close ''log/log.log'']\<rparr>)"
  using Write_after_Close [OF ex_Close, of "[''late'', ''later'']"] ex_Close by simp

section \<open>Closing twice\<close>




section \<open>The defaults of the constructor\<close>

text \<open>
  Claim C10. A writer that \<^verbatim>\<open>NewFileWriter\<close> returns has the directory name of the
  configuration, or \<^verbatim>\<open>./log\<close> when that was empty, and the file name of the
  configuration, or \<^verbatim>\<open>log.log\<close> when that was empty; the path of its active file is
  \<^verbatim>\<open>path.Join\<close> of the two, and that is the file it has open.
\<close>

theorem NewFileWriter_defaults:
  assumes "NewFileWriter c wld = (Inr w, wld')"
  shows "LogDirName (config w) = (if LogDirName c = [] then ''./log'' else LogDirName c)
       \<and> LogFileName (config w) = (if LogFileName c = [] then ''log.log'' else LogFileName c)
       \<and> logFileNameFullPath w = path_Join [LogDirName (config w), LogFileName (config w)]
       \<and> logFile w = Some \<lparr>fname = logFileNameFullPath w, fclosed = False\<rparr>"
proof -
  define c3 where "c3 = (let c1 = (if MaxLogFileSizeBytes c = 0
                then c\<lparr>MaxLogFileSizeBytes := defaultLogFileSizeBytes\<rparr> else c);
          c2 = (if LogDirName c1 = [] then c1\<lparr>LogDirName := defaultLogDirName\<rparr> else c1)
       in (if LogFileName c2 = [] then c2\<lparr>LogFileName := defaultLogFileName\<rparr> else c2))"
  define w0 where "w0 = \<lparr>closed = None, config = c3, logFile = None,
                        logFileNameFullPath = path_Join [LogDirName c3, LogFileName c3],
                        byteCounter = 0, compressorWG = []\<rparr>"
  have i: "initialize w0 wld = (None, w, wld')"
    using assms unfolding NewFileWriter_def w0_def c3_def Let_def
    by (auto split: prod.splits option.splits)
  have f: "config w = c3" "logFileNameFullPath w = path_Join [LogDirName c3, LogFileName c3]"
    using initialize_config [of w0 wld] i by (simp_all add: w0_def)
  have d: "LogDirName c3 = (if LogDirName c = [] then ''./log'' else LogDirName c)"
          "LogFileName c3 = (if LogFileName c = [] then ''log.log'' else LogFileName c)"
    by (simp_all add: c3_def Let_def defaultLogDirName_def defaultLogFileName_def)
  have l: "logFile w = Some \<lparr>fname = logFileNameFullPath w0, fclosed = False\<rparr>"
    using initialize_logFile [OF i] .
  show ?thesis using f d l by (simp add: w0_def)
qed

theorem NewFileWriter_defaults_witness:
  "NewFileWriter \<lparr>LogDirName = [], LogFileName = [], Compress = False,
        MaxTimeTimeToKeep = 0, MaxLogFileSizeBytes = 0\<rparr> ex_world =
     (Inr \<lparr>closed = None,
          config = \<lparr>LogDirName = ''./log'', LogFileName = ''log.log'', Compress = False,
                    MaxTimeTimeToKeep = 0, MaxLogFileSizeBytes = 1000000\<rparr>,
          logFile = Some \<lparr>fname = ''log/log.log'', fclosed = False\<rparr>,
          logFileNameFullPath = ''log/log.log'', byteCounter = 3, compressorWG = []\<rparr>,
      ex_world\<lparr>oslog := [Call_MkdirAll ''./log'', Call_ReadDir ''./log'',
         Call_Info ''log/log.log'', Call_Stat ''log/log.log'',
         Call_OpenFile ''log/log.log'' O_APPEND_WRONLY_CREATE]\<rparr>)
   \<and> ''log/log.log'' = path_Join [''./log'', ''log.log'']"
  using NewFileWriter_defaults [OF ex_NewFileWriter] ex_NewFileWriter by simp

section \<open>What Write returns when the rotation fails\<close>

text \<open>
  Claim C1. The claim has two parts. The byte count that \<^verbatim>\<open>Write\<close> returns is the
  count of the append, whatever the rotation does afterwards: that part holds. The
  error that \<^verbatim>\<open>Write\<close> returns is the error of the append as well: the result of
  \<^verbatim>\<open>w.rotate()\<close> is dropped, so a failure of the rotation never reaches the caller.
  The theorem states both for every open writer; its witness is a write of ten bytes
  that crosses the limit in a world where the directory cannot be created: the rotation
  returns the failure and \<^verbatim>\<open>Write\<close> returns ten bytes and no error.
\<close>

theorem Write_returns_append_result:
  assumes "closed w = None" and "Write w msg wld = (Return r, w', wld')"
  shows "r = fst (File_Write (logFile w) msg wld) \<and> fst r \<le> length msg"
proof -
  obtain n err wld1 where a: "File_Write (logFile w) msg wld = ((n, err), wld1)"
    by (metis prod.exhaust)
  have "n \<le> length msg"
    using a by (auto simp: File_Write_def os_call_def Let_def split: option.splits if_splits)
  moreover have "r = (n, err)"
    using assms a
    by (auto simp: Write_def Let_def split: prod.splits outcome.splits if_splits)
  ultimately show ?thesis using a by simp
qed

theorem Write_returns_append_result_witness:
  "closed ex_writer = None
   \<and> rotate (ex_writer\<lparr>byteCounter := 13\<rparr>)
       (ex_world_no_mkdir
          \<lparr>files := [(''log/log.log'', \<lparr>content = ''abc0123456789'', modTime = 1000\<rparr>)],
           oslog := [Call_Write ''log/log.log'' ''0123456789'']\<rparr>) =
     (Return (Some ErrIO),
      ex_writer\<lparr>byteCounter := 13, logFile := Some \<lparr>fname = ''log/log.log'', fclosed = True\<rparr>\<rparr>,
      ex_world_no_mkdir
        \<lparr>files := [(''log/log.log'', \<lparr>content = ''abc0123456789'', modTime = 1000\<rparr>)],
         oslog := [Call_Write ''log/log.log'' ''0123456789'', Call_Close ''log/log.log'',
                   Call_MkdirAll ''log'']\<rparr>)
   \<and> Write ex_writer ''0123456789'' ex_world_no_mkdir =
     (Return (10, None),
      ex_writer\<lparr>byteCounter := 13, logFile := Some \<lparr>fname = ''log/log.log'', fclosed = True\<rparr>\<rparr>,
      ex_world_no_mkdir
        \<lparr>files := [(''log/log.log'', \<lparr>content = ''abc0123456789'', modTime = 1000\<rparr>)],
         oslog := [Call_Write ''log/log.log'' ''0123456789'', Call_Close ''log/log.log'',
                   Call_MkdirAll ''log'']\<rparr>)
   \<and> (10, None) = fst (File_Write (logFile ex_writer) ''0123456789'' ex_world_no_mkdir)"
proof -
  have c: "closed ex_writer = None" by (simp add: ex_writer_def)
  show ?thesis
    using Write_returns_append_result [OF c ex_Write_no_mkdir] c ex_rotate_no_mkdir
      ex_Write_no_mkdir
    by simp
qed

section \<open>The byte counter when the archive rename fails\<close>

text \<open>
  Claim C3. \<^verbatim>\<open>rotate\<close> drops the result of \<^verbatim>\<open>w.archive\<close>. When the rename of the
  active file fails and every other call succeeds, the rotation reopens the file that
  was never moved, returns no error and sets the byte counter to zero, while the active
  file keeps all its bytes. The witness is the writer with thirteen bytes in its file
  and a limit of ten.
\<close>

theorem rotate_resets_counter_when_rename_fails:
  assumes "logFile w = Some f" and "\<not> fclosed f"
    and "map_of (files wld) (logFileNameFullPath w) = Some i"
    and "\<And>h a b. fault wld h (Call_Rename a b) \<noteq> None"
    and "\<And>h c. (\<forall>a b. c \<noteq> Call_Rename a b) \<Longrightarrow> fault wld h c = None"
  shows "fst (rotate w wld) = Return None
       \<and> byteCounter (fst (snd (rotate w wld))) = 0
       \<and> logFile (fst (snd (rotate w wld))) = Some \<lparr>fname = logFileNameFullPath w, fclosed = False\<rparr>
       \<and> files (snd (snd (rotate w wld))) = files wld"
proof -
  obtain k where k: "fault wld (oslog wld @ [Call_Close (fname f), Call_MkdirAll (LogDirName (config w))])
      (Call_Rename (logFileNameFullPath w) (archiveName (clock wld) (logFileNameFullPath w))) = Some k"
    using assms(4) by blast
  show ?thesis
    using assms(1,2,3) k
    by (simp add: rotate_def archive_def os_defs Let_def assms(5))
qed

theorem rotate_resets_counter_when_rename_fails_witness:
  "logFile ex_writer_full = Some \<lparr>fname = ''log/log.log'', fclosed = False\<rparr>
   \<and> map_of (files ex_world_full) (logFileNameFullPath ex_writer_full) =
       Some \<lparr>content = ''abc0123456789'', modTime = 1000\<rparr>
   \<and> fst (rotate ex_writer_full ex_world_full) = Return None
   \<and> byteCounter (fst (snd (rotate ex_writer_full ex_world_full))) = 0
   \<and> files (snd (snd (rotate ex_writer_full ex_world_full))) =
       [(''log/log.log'', \<lparr>content = ''abc0123456789'', modTime = 1000\<rparr>)]"
proof -
  have a: "logFile ex_writer_full = Some \<lparr>fname = ''log/log.log'', fclosed = False\<rparr>"
    by (simp add: ex_defs)
  have b: "\<not> fclosed \<lparr>fname = ''log/log.log'', fclosed = False\<rparr>" by simp
  have c: "map_of (files ex_world_full) (logFileNameFullPath ex_writer_full) =
       Some \<lparr>content = ''abc0123456789'', modTime = 1000\<rparr>"
    by (simp add: ex_defs)
  have d: "\<And>h a b. fault ex_world_full h (Call_Rename a b) \<noteq> None"
    by (simp add: ex_defs)
  have e: "\<And>h c. (\<forall>a b. c \<noteq> Call_Rename a b) \<Longrightarrow> fault ex_world_full h c = None"
    by (simp add: ex_defs split: oscall.splits)
  have f: "files ex_world_full = [(''log/log.log'', \<lparr>content = ''abc0123456789'', modTime = 1000\<rparr>)]"
    by (simp add: ex_defs)
  show ?thesis
    using rotate_resets_counter_when_rename_fails [OF a b c d e] a c f by simp
qed

section \<open>A compression whose rename fails\<close>

text \<open>
  Claim C2. In \<^verbatim>\<open>compress\<close> the branch for a failed rename of the temporary output
  logs the failure and goes on. When that rename fails and every other call succeeds,
  the original archive is removed all the same, the temporary output stays in the
  directory with the compressed bytes, and no file appears under the compressed name.
\<close>

theorem compress_failed_rename_removes_original:
  assumes "map_of (files wld) fn = Some i"
    and "\<And>h a b. fault wld h (Call_Rename a b) \<noteq> None"
    and "\<And>h c. (\<forall>a b. c \<noteq> Call_Rename a b) \<Longrightarrow> fault wld h c = None"
  shows "map_of (files (snd (compress w fn wld))) fn = None
       \<and> map_of (files (snd (compress w fn wld))) (fn @ ''.gz.processing'') =
           Some \<lparr>content = gzip wld (content i), modTime = unixNano (clock wld)\<rparr>
       \<and> map_of (files (snd (compress w fn wld))) (fn @ ''.gz'') = map_of (files wld) (fn @ ''.gz'')"
proof -
  obtain k where k: "fault wld (oslog wld @ [Call_Open fn,
        Call_OpenFile (fn @ ''.gz.processing'') O_CREATE_TRUNC_WRONLY,
        Call_Read fn,
        Call_Write (fn @ ''.gz.processing'')
          (take (flushed wld (content i)) (gzip wld (content i)))])
      (Call_Rename (fn @ ''.gz.processing'') (fn @ ''.gz'')) = Some k"
    using assms(2) by blast
  show ?thesis
    using assms(1) k
    by (simp add: compress_def os_defs Let_def assms(3) compressedExtension_def
        processingExtenstion_def update_conv' delete_conv' take_min_length)
qed

theorem compress_failed_rename_removes_original_witness:
  "map_of (files ex_world_archived_no_rename) ''log/log-2024-03-01T12-05-09.00045.log'' =
     Some \<lparr>content = ''abc'', modTime = 5\<rparr>
   \<and> files (snd (compress ex_writer ''log/log-2024-03-01T12-05-09.00045.log''
                    ex_world_archived_no_rename)) =
       [(''log/log-2024-03-01T12-05-09.00045.log.gz.processing'',
         \<lparr>content = ''zabc'', modTime = 1000\<rparr>)]
   \<and> map_of (files (snd (compress ex_writer ''log/log-2024-03-01T12-05-09.00045.log''
                    ex_world_archived_no_rename))) ''log/log-2024-03-01T12-05-09.00045.log'' = None"
proof -
  have a: "map_of (files ex_world_archived_no_rename) ''log/log-2024-03-01T12-05-09.00045.log'' =
     Some \<lparr>content = ''abc'', modTime = 5\<rparr>"
    by (simp add: ex_defs)
  have d: "\<And>h a b. fault ex_world_archived_no_rename h (Call_Rename a b) \<noteq> None"
    by (simp add: ex_defs)
  have e: "\<And>h c. (\<forall>a b. c \<noteq> Call_Rename a b) \<Longrightarrow> fault ex_world_archived_no_rename h c = None"
    by (simp add: ex_defs split: oscall.splits)
  show ?thesis
    using compress_failed_rename_removes_original [OF a d e, of ex_writer] a ex_compress_no_rename
    by simp
qed

section \<open>The sweep and the compression flag\<close>

text \<open>
  Claim C6. \<^verbatim>\<open>cleanup\<close> never reads the flag \<^verbatim>\<open>Compress\<close> of the configuration: with
  the flag set or not, it returns the same result, makes the same calls and starts the
  same compressions. The witness is a writer configured without compression whose
  directory holds an older log file: the sweep starts the compression of that file.
\<close>

theorem cleanup_ignores_Compress:
  "cleanup (w\<lparr>config := (config w)\<lparr>Compress := b\<rparr>\<rparr>) wld =
     (case cleanup w wld of
        (err, w', wld') \<Rightarrow> (err, w'\<lparr>config := (config w')\<lparr>Compress := b\<rparr>\<rparr>, wld'))"
  by (simp add: cleanup_def cleanup_range_ignores_Compress split: prod.splits sum.splits)

theorem cleanup_ignores_Compress_witness:
  "Compress (config ex_writer_new) = False
   \<and> cleanup ex_writer_new ex_world_backlog =
       (None, ex_writer_new\<lparr>compressorWG := [''log/old.log'']\<rparr>,
        ex_world_backlog\<lparr>oslog := [Call_ReadDir ''log'', Call_Info ''log/log.log'',
                                    Call_Info ''log/old.log'']\<rparr>)
   \<and> cleanup (ex_writer_new\<lparr>config := (config ex_writer_new)\<lparr>Compress := True\<rparr>\<rparr>)
         ex_world_backlog =
       (None, ex_writer_new\<lparr>compressorWG := [''log/old.log''],
                            config := (config ex_writer_new)\<lparr>Compress := True\<rparr>\<rparr>,
        ex_world_backlog\<lparr>oslog := [Call_ReadDir ''log'', Call_Info ''log/log.log'',
                                    Call_Info ''log/old.log'']\<rparr>)"
  using cleanup_ignores_Compress [where w = ex_writer_new and b = True and wld = ex_world_backlog] ex_cleanup_backlog
  by (simp add: ex_writer_new_def)

section \<open>The byte counter and the trigger of the rotation\<close>

text \<open>
  Claim C5. For a call of \<^verbatim>\<open>Write\<close> on a writer that is not closed, with \<open>n\<close> the
  number of bytes the append reports: the counter becomes the old counter plus \<open>n\<close>
  (as an \<^verbatim>\<open>int64\<close>); when the new counter is above the configured maximum, the call
  ends in the state that \<^verbatim>\<open>rotate\<close> leaves, and otherwise in the state right after the
  append. The rotation is visible from outside: the call panics or the next call on
  the system after the append is the close of the active file, and that happens
  exactly when the new counter is above the maximum. For a list of payloads whose
  total length keeps the counter at or below the maximum, on an open file whose writes
  do not fail, every write returns the length of its payload and no error, the counter
  grows by the total length, the only calls made are the writes, and the file holds
  the payloads appended in order.
\<close>

theorem Write_counter_and_rotation:
  assumes "closed w = None"
    and "File_Write (logFile w) msg wld = ((n, err), wld1)"
    and "Write w msg wld = (out, w', wld')"
  shows "(MaxLogFileSizeBytes (config w) < int64 (byteCounter w + int n)
            \<longrightarrow> (w', wld') = snd (rotate (w\<lparr>byteCounter := int64 (byteCounter w + int n)\<rparr>) wld1)
                \<and> (out = Return (n, err) \<or> (\<exists>s. out = Panic s)))
       \<and> (\<not> MaxLogFileSizeBytes (config w) < int64 (byteCounter w + int n)
            \<longrightarrow> out = Return (n, err)
                \<and> w' = w\<lparr>byteCounter := int64 (byteCounter w + int n)\<rparr> \<and> wld' = wld1)
       \<and> ((MaxLogFileSizeBytes (config w) < int64 (byteCounter w + int n))
            = ((\<exists>s. out = Panic s)
               \<or> (\<exists>f rest. logFile w = Some f
                     \<and> oslog wld' = oslog wld1 @ Call_Close (fname f) # rest)))
       \<and> (\<forall>f msgs.
             logFile w = Some f \<and> \<not> fclosed f
             \<and> (\<forall>h m. fault wld h (Call_Write (fname f) m) = None)
             \<and> - (2 ^ 63) \<le> byteCounter w \<and> MaxLogFileSizeBytes (config w) < 2 ^ 63
             \<and> byteCounter w + int (length (concat msgs)) \<le> MaxLogFileSizeBytes (config w)
            \<longrightarrow> fst (Writes w msgs wld) = map (\<lambda>m. Return (length m, None)) msgs
                \<and> fst (snd (Writes w msgs wld)) =
                    w\<lparr>byteCounter := byteCounter w + int (length (concat msgs))\<rparr>
                \<and> oslog (snd (snd (Writes w msgs wld))) =
                    oslog wld @ map (Call_Write (fname f)) msgs
                \<and> map_option content (map_of (files (snd (snd (Writes w msgs wld)))) (fname f)) =
                    map_option (\<lambda>i. content i @ concat msgs) (map_of (files wld) (fname f)))"
proof (intro conjI allI impI)
  let ?w1 = "w\<lparr>byteCounter := int64 (byteCounter w + int n)\<rparr>"
  have W: "Write w msg wld =
     (if MaxLogFileSizeBytes (config w) < int64 (byteCounter w + int n)
      then (case rotate ?w1 wld1 of
              (Panic s, w2, wld2) \<Rightarrow> (Panic s, w2, wld2)
            | (Return r, w2, wld2) \<Rightarrow> (Return (n, err), w2, wld2))
      else (Return (n, err), ?w1, wld1))"
    using assms(1,2) by (simp add: Write_def Let_def)
  obtain ro w2 wld2 where R: "rotate ?w1 wld1 = (ro, w2, wld2)"
    by (metis prod.exhaust)
  have RC: "(\<exists>s. ro = Panic s) \<or>
         (\<exists>f rest. logFile w = Some f \<and> oslog wld2 = oslog wld1 @ Call_Close (fname f) # rest)"
    using rotate_calls [OF R] by simp
  {
    assume gt: "MaxLogFileSizeBytes (config w) < int64 (byteCounter w + int n)"
    have eq: "(out, w', wld') = (case ro of Panic s \<Rightarrow> (Panic s, w2, wld2)
                                  | Return r \<Rightarrow> (Return (n, err), w2, wld2))"
      using assms(3) W gt R by (simp split: outcome.splits)
    show "(w', wld') = snd (rotate ?w1 wld1)"
      using eq R by (cases ro) simp_all
    show "out = Return (n, err) \<or> (\<exists>s. out = Panic s)"
      using eq by (cases ro) simp_all
  }
  {
    assume le: "\<not> MaxLogFileSizeBytes (config w) < int64 (byteCounter w + int n)"
    show "out = Return (n, err)" "w' = ?w1" "wld' = wld1"
      using assms(3) W le by simp_all
  }
  show "(MaxLogFileSizeBytes (config w) < int64 (byteCounter w + int n))
            = ((\<exists>s. out = Panic s)
               \<or> (\<exists>f rest. logFile w = Some f
                     \<and> oslog wld' = oslog wld1 @ Call_Close (fname f) # rest))"
  proof (cases "MaxLogFileSizeBytes (config w) < int64 (byteCounter w + int n)")
    case True
    have eq: "(out, w', wld') = (case ro of Panic s \<Rightarrow> (Panic s, w2, wld2)
                                  | Return r \<Rightarrow> (Return (n, err), w2, wld2))"
      using assms(3) W True R by (simp split: outcome.splits)
    show ?thesis using True eq RC by (cases ro) auto
  next
    case False
    have "out = Return (n, err)" "wld' = wld1"
      using assms(3) W False by simp_all
    then show ?thesis using False by simp
  qed
next
  fix f :: os_File and msgs :: "string list"
  assume a: "logFile w = Some f \<and> \<not> fclosed f
             \<and> (\<forall>h m. fault wld h (Call_Write (fname f) m) = None)
             \<and> - (2 ^ 63) \<le> byteCounter w \<and> MaxLogFileSizeBytes (config w) < 2 ^ 63
             \<and> byteCounter w + int (length (concat msgs)) \<le> MaxLogFileSizeBytes (config w)"
  have S: "Writes w msgs wld =
     (map (\<lambda>m. Return (length m, None)) msgs,
      w\<lparr>byteCounter := byteCounter w + int (length (concat msgs))\<rparr>,
      foldl (\<lambda>wl m. snd (File_Write (Some f) m wl)) wld msgs)"
    using assms(1) a by (intro Writes_below_limit) auto
  show "fst (Writes w msgs wld) = map (\<lambda>m. Return (length m, None)) msgs"
    by (simp add: S)
  show "fst (snd (Writes w msgs wld)) =
          w\<lparr>byteCounter := byteCounter w + int (length (concat msgs))\<rparr>"
    by (simp add: S)
  show "oslog (snd (snd (Writes w msgs wld))) = oslog wld @ map (Call_Write (fname f)) msgs"
    using a by (simp add: S appends_oslog)
  have "map_of (files (foldl (\<lambda>wl m. snd (File_Write (Some f) m wl)) wld msgs)) (fname f) =
         (if fname f = fname f \<and> msgs \<noteq> []
          then map_option (\<lambda>i. i\<lparr>content := content i @ concat msgs, modTime := unixNano (clock wld)\<rparr>)
                 (map_of (files wld) (fname f))
          else map_of (files wld) (fname f))"
    using a by (intro appends_files) auto
  then show "map_option content (map_of (files (snd (snd (Writes w msgs wld)))) (fname f)) =
          map_option (\<lambda>i. content i @ concat msgs) (map_of (files wld) (fname f))"
    by (cases "map_of (files wld) (fname f)") (auto simp: S)
qed

theorem Write_counter_and_rotation_witness:
  "closed ex_writer = None
   \<and> File_Write (logFile ex_writer) ''0123456789'' ex_world =
       ((10, None),
        ex_world\<lparr>files := [(''log/log.log'', \<lparr>content = ''abc0123456789'', modTime = 1000\<rparr>)],
                  oslog := [Call_Write ''log/log.log'' ''0123456789'']\<rparr>)
   \<and> MaxLogFileSizeBytes (config ex_writer) < int64 (byteCounter ex_writer + int 10)
   \<and> Write ex_writer ''0123456789'' ex_world =
     (Return (10, None),
      ex_writer\<lparr>logFile := Some \<lparr>fname = ''log/log.log'', fclosed = False\<rparr>, byteCounter := 0,
                 compressorWG := [''log/log-2024-03-01T12-05-09.00045.log'']\<rparr>,
      ex_world\<lparr>files := [(''log/log-2024-03-01T12-05-09.00045.log'',
                           \<lparr>content = ''abc0123456789'', modTime = 1000\<rparr>),
                          (''log/log.log'', \<lparr>content = [], modTime = 1000\<rparr>)],
                oslog := [Call_Write ''log/log.log'' ''0123456789'', Call_Close ''log/log.log'',
                   Call_MkdirAll ''log'',
                   Call_Rename ''log/log.log'' ''log/log-2024-03-01T12-05-09.00045.log'',
                   Call_OpenFile ''log/log.log'' O_APPEND_WRONLY_CREATE]\<rparr>)
   \<and> byteCounter ex_writer + int (length (concat [''de'', ''fgh''])) \<le> MaxLogFileSizeBytes (config ex_writer)
   \<and> fst (Writes ex_writer [''de'', ''fgh''] ex_world) = [Return (2, None), Return (3, None)]
   \<and> byteCounter (fst (snd (Writes ex_writer [''de'', ''fgh''] ex_world))) = 8
   \<and> oslog (snd (snd (Writes ex_writer [''de'', ''fgh''] ex_world))) =
       [Call_Write ''log/log.log'' ''de'', Call_Write ''log/log.log'' ''fgh'']
   \<and> map_option content (map_of (files (snd (snd (Writes ex_writer [''de'', ''fgh''] ex_world))))
         ''log/log.log'') = Some ''abcdefgh''"
proof -
  have c: "closed ex_writer = None" by (simp add: ex_defs)
  have g: "MaxLogFileSizeBytes (config ex_writer) < int64 (byteCounter ex_writer + int 10)"
    by (simp add: ex_defs ex_config_def int64_def)
  note t = Write_counter_and_rotation [OF c ex_File_Write ex_Write_rotates]
  have h: "logFile ex_writer = Some \<lparr>fname = ''log/log.log'', fclosed = False\<rparr>
             \<and> \<not> fclosed \<lparr>fname = ''log/log.log'', fclosed = False\<rparr>
             \<and> (\<forall>h m. fault ex_world h (Call_Write (fname \<lparr>fname = ''log/log.log'', fclosed = False\<rparr>) m) = None)
             \<and> - (2 ^ 63) \<le> byteCounter ex_writer \<and> MaxLogFileSizeBytes (config ex_writer) < 2 ^ 63
             \<and> byteCounter ex_writer + int (length (concat [''de'', ''fgh''])) \<le> MaxLogFileSizeBytes (config ex_writer)"
    by (simp add: ex_defs ex_config_def)
  have s: "fst (Writes ex_writer [''de'', ''fgh''] ex_world) = map (\<lambda>m. Return (length m, None)) [''de'', ''fgh'']
                \<and> fst (snd (Writes ex_writer [''de'', ''fgh''] ex_world)) =
                    ex_writer\<lparr>byteCounter := byteCounter ex_writer + int (length (concat [''de'', ''fgh'']))\<rparr>
                \<and> oslog (snd (snd (Writes ex_writer [''de'', ''fgh''] ex_world))) =
                    oslog ex_world @ map (Call_Write (fname \<lparr>fname = ''log/log.log'', fclosed = False\<rparr>)) [''de'', ''fgh'']
                \<and> map_option content (map_of (files (snd (snd (Writes ex_writer [''de'', ''fgh''] ex_world))))
                      (fname \<lparr>fname = ''log/log.log'', fclosed = False\<rparr>)) =
                    map_option (\<lambda>i. content i @ concat [''de'', ''fgh''])
                      (map_of (files ex_world) (fname \<lparr>fname = ''log/log.log'', fclosed = False\<rparr>))"
    using t h by blast
  have e: "oslog ex_world = []" "map_of (files ex_world) ''log/log.log'' = Some \<lparr>content = ''abc'', modTime = 5\<rparr>"
    "byteCounter ex_writer = 3"
    by (simp_all add: ex_defs)
  show ?thesis
    using c g ex_File_Write ex_Write_rotates h s e by simp
qed

section \<open>The temporary marker and the end of the compressed stream\<close>

text \<open>
  Claim C8. The names are as the claim says (lemma \<open>archive_name_shape\<close> for the archive;
  \<^verbatim>\<open>compress\<close> writes to the archive name followed by \<^verbatim>\<open>.gz.processing\<close> and renames
  that to the archive name followed by \<^verbatim>\<open>.gz\<close>). But the marker is not removed on
  completion only: \<^verbatim>\<open>compress\<close> renames the temporary output and removes the original
  as soon as the copy has returned, and the end of the compressed stream is written
  after that, by the deferred \<^verbatim>\<open>zipper.Close()\<close>, whose error is dropped. When that last
  write fails and every other call succeeds, the original is gone, no file carries
  the marker, and the file under the compressed name holds only the part of the
  stream that the copy had passed on.
\<close>

theorem compress_finishes_stream_after_rename:
  assumes "map_of (files wld) fn = Some i"
    and "\<And>h b. fault wld h (Call_Write (fn @ ''.gz'') b) = Some 0"
    and "\<And>h c. (\<forall>b. c \<noteq> Call_Write (fn @ ''.gz'') b) \<Longrightarrow> fault wld h c = None"
  shows "oslog (snd (compress w fn wld)) =
           oslog wld @
             [Call_Open fn,
              Call_OpenFile (fn @ ''.gz.processing'') O_CREATE_TRUNC_WRONLY,
              Call_Read fn,
              Call_Write (fn @ ''.gz.processing'')
                (take (flushed wld (content i)) (gzip wld (content i))),
              Call_Rename (fn @ ''.gz.processing'') (fn @ ''.gz''),
              Call_Remove fn,
              Call_Write (fn @ ''.gz'') (drop (flushed wld (content i)) (gzip wld (content i))),
              Call_Close (fn @ ''.gz''),
              Call_Close fn]
       \<and> map_of (files (snd (compress w fn wld))) fn = None
       \<and> map_of (files (snd (compress w fn wld))) (fn @ ''.gz.processing'') = None
       \<and> map_of (files (snd (compress w fn wld))) (fn @ ''.gz'') =
           Some \<lparr>content = take (flushed wld (content i)) (gzip wld (content i)),
                 modTime = unixNano (clock wld)\<rparr>"
  using assms(1)
  by (simp add: compress_def os_defs Let_def assms(2,3) compressedExtension_def
      processingExtenstion_def update_conv' delete_conv' take_min_length)

theorem compress_finishes_stream_after_rename_witness:
  "map_of (files ex_world_archived_no_trailer) ''log/log-2024-03-01T12-05-09.00045.log'' =
     Some \<lparr>content = ''abc'', modTime = 5\<rparr>
   \<and> gzip ex_world_archived_no_trailer ''abc'' = ''zabc''
   \<and> files (snd (compress ex_writer ''log/log-2024-03-01T12-05-09.00045.log''
                    ex_world_archived_no_trailer)) =
       [(''log/log-2024-03-01T12-05-09.00045.log.gz'', \<lparr>content = ''za'', modTime = 1000\<rparr>)]
   \<and> oslog (snd (compress ex_writer ''log/log-2024-03-01T12-05-09.00045.log''
                    ex_world_archived_no_trailer)) =
       [Call_Open ''log/log-2024-03-01T12-05-09.00045.log'',
        Call_OpenFile ''log/log-2024-03-01T12-05-09.00045.log.gz.processing''
          O_CREATE_TRUNC_WRONLY,
        Call_Read ''log/log-2024-03-01T12-05-09.00045.log'',
        Call_Write ''log/log-2024-03-01T12-05-09.00045.log.gz.processing'' ''za'',
        Call_Rename ''log/log-2024-03-01T12-05-09.00045.log.gz.processing''
          ''log/log-2024-03-01T12-05-09.00045.log.gz'',
        Call_Remove ''log/log-2024-03-01T12-05-09.00045.log'',
        Call_Write ''log/log-2024-03-01T12-05-09.00045.log.gz'' ''bc'',
        Call_Close ''log/log-2024-03-01T12-05-09.00045.log.gz'',
        Call_Close ''log/log-2024-03-01T12-05-09.00045.log'']
   \<and> files (snd (compress ex_writer ''log/log-2024-03-01T12-05-09.00045.log''
                    ex_world_archived)) =
       [(''log/log-2024-03-01T12-05-09.00045.log.gz'', \<lparr>content = ''zabc'', modTime = 1000\<rparr>)]"
proof -
  have a: "map_of (files ex_world_archived_no_trailer) ''log/log-2024-03-01T12-05-09.00045.log'' =
     Some \<lparr>content = ''abc'', modTime = 5\<rparr>"
    by (simp add: ex_defs)
  have d: "\<And>h b. fault ex_world_archived_no_trailer h
      (Call_Write (''log/log-2024-03-01T12-05-09.00045.log'' @ ''.gz'') b) = Some 0"
    by (simp add: ex_defs)
  have e: "\<And>h c. (\<forall>b. c \<noteq> Call_Write (''log/log-2024-03-01T12-05-09.00045.log'' @ ''.gz'') b)
      \<Longrightarrow> fault ex_world_archived_no_trailer h c = None"
    by (simp add: ex_defs split: oscall.splits)
  have g: "gzip ex_world_archived_no_trailer ''abc'' = ''zabc''" by (simp add: ex_defs)
  show ?thesis
    using compress_finishes_stream_after_rename [OF a d e, of ex_writer] a g
      ex_compress_no_trailer ex_compress
    by simp
qed

section \<open>An active file found at construction\<close>




end
